theory Spec2Isabelle
  imports Main
begin

section \<open>Canonical conversation model (session.ts)\<close>

text \<open>
  The message format of \<^verbatim>\<open>session.ts\<close>. A content block is a tagged union; the
  structured tool input (\<^verbatim>\<open>Record<string, unknown>\<close>) is kept abstract as the type
  parameter \<open>'j\<close>. Message content is either a plain string or an ordered block list.
  Strings are lists of code units; \<open>length\<close> plays the role of \<^verbatim>\<open>.length\<close>.
  The numbers of the configuration (history limit, character cap) are integers.
\<close>

datatype Role = User | Assistant

datatype 'j ContentBlock =
    TextBlock string
  | ToolUseBlock string string 'j
  | ToolResultBlock string string

datatype 'j Content = Str string | Blocks "'j ContentBlock list"

record 'j Message =
  role :: Role
  content :: "'j Content"

record Config =
  maxHistoryTurns :: int
  maxToolResultChars :: int

section \<open>Context management (context.ts)\<close>

definition HARD_MAX_TOOL_RESULT_CHARS :: int where
  "HARD_MAX_TOOL_RESULT_CHARS = 400000"

definition MIN_KEEP_CHARS :: int where
  "MIN_KEEP_CHARS = 2000"

definition newline :: char where
  "newline = CHR 0x0A"

subsection \<open>String primitives of the runtime\<close>

text \<open>Decimal rendering of a number inside a template literal.\<close>

fun showNat :: "nat \<Rightarrow> string" where
  "showNat n = (if n < 10 then [''0123456789'' ! n]
                else showNat (n div 10) @ [''0123456789'' ! (n mod 10)])"

declare showNat.simps [simp del]

definition showInt :: "int \<Rightarrow> string" where
  "showInt i = (if i < 0 then CHR ''-'' # showNat (nat (- i)) else showNat (nat i))"

text \<open>
  \<^verbatim>\<open>text.lastIndexOf(c, pos)\<close> for a one-character needle: the position is clamped to
  \<open>[0, length - 1]\<close>, the scan runs backwards from there, and \<open>-1\<close> means not found.
\<close>

fun lastIndexFrom :: "string \<Rightarrow> char \<Rightarrow> nat \<Rightarrow> int" where
  "lastIndexFrom s c 0 = (if s ! 0 = c then 0 else - 1)"
| "lastIndexFrom s c (Suc k) =
     (if s ! Suc k = c then int (Suc k) else lastIndexFrom s c k)"

definition lastIndexOf :: "string \<Rightarrow> char \<Rightarrow> int \<Rightarrow> int" where
  "lastIndexOf s c pos =
     (if s = [] then - 1
      else lastIndexFrom s c (nat (min (max pos 0) (int (length s) - 1))))"

text \<open>\<^verbatim>\<open>text.slice(0, e)\<close>: a negative end counts from the end of the string.\<close>

definition slice0 :: "string \<Rightarrow> int \<Rightarrow> string" where
  "slice0 s e = (if e < 0 then take (nat (int (length s) + e)) s else take (nat e) s)"

subsection \<open>Text truncation\<close>

definition truncMarker :: "int \<Rightarrow> nat \<Rightarrow> string" where
  "truncMarker cutAt len =
     [newline, newline] @ ''[Truncated: showing first '' @ showInt cutAt @ '' of ''
       @ showNat len @ '' characters]''"

text \<open>
  \<^verbatim>\<open>Math.floor(keepChars * 0.8)\<close> is written as \<open>keepChars * 4 div 5\<close>: \<open>keepChars\<close> is
  an integer of at least 2000, where the two agree.
\<close>

definition truncateText :: "string \<Rightarrow> int \<Rightarrow> string" where
  "truncateText text maxChars =
     (if int (length text) \<le> maxChars then text
      else
        let keepChars = max MIN_KEEP_CHARS (maxChars - 100);
            searchEnd = keepChars * 4 div 5;
            lastNewline = lastIndexOf text newline keepChars;
            cutAt = (if lastNewline > searchEnd then lastNewline else keepChars)
        in slice0 text cutAt @ truncMarker cutAt (length text))"

text \<open>The copy of the same function in \<^verbatim>\<open>tools.ts\<close>.\<close>

definition truncateToolResult :: "string \<Rightarrow> int \<Rightarrow> string" where
  "truncateToolResult text maxChars =
     (if int (length text) \<le> maxChars then text
      else
        let keepChars = max MIN_KEEP_CHARS (maxChars - 100);
            searchEnd = keepChars * 4 div 5;
            lastNewline = lastIndexOf text newline keepChars;
            cutAt = (if lastNewline > searchEnd then lastNewline else keepChars)
        in slice0 text cutAt @ truncMarker cutAt (length text))"

subsection \<open>Layer 1: limit history turns\<close>

text \<open>
  The backward loop \<^verbatim>\<open>for (i = length - 1; i >= 0; i--)\<close>. The third argument is
  \<open>i + 1\<close>, the fourth is \<open>userCount\<close>; the result is \<open>cutIndex\<close> (0 when the loop
  runs out without a break).
\<close>

fun limitLoop :: "'j Message list \<Rightarrow> int \<Rightarrow> nat \<Rightarrow> int \<Rightarrow> nat" where
  "limitLoop messages maxTurns 0 userCount = 0"
| "limitLoop messages maxTurns (Suc i) userCount =
     (if role (messages ! i) = User then
        (if userCount + 1 > maxTurns then i + 1
         else limitLoop messages maxTurns i (userCount + 1))
      else limitLoop messages maxTurns i userCount)"

definition limitHistoryTurns :: "'j Message list \<Rightarrow> int \<Rightarrow> 'j Message list" where
  "limitHistoryTurns messages maxTurns =
     (if maxTurns \<le> 0 then messages
      else drop (limitLoop messages maxTurns (length messages) 0) messages)"

subsection \<open>Layer 2: truncate oversized tool results\<close>

fun isToolResult :: "'j ContentBlock \<Rightarrow> bool" where
  "isToolResult (ToolResultBlock t c) = True"
| "isToolResult b = False"

fun truncateBlock :: "int \<Rightarrow> 'j ContentBlock \<Rightarrow> 'j ContentBlock" where
  "truncateBlock maxChars (ToolResultBlock t c) =
     (if int (length c) > maxChars then ToolResultBlock t (truncateText c maxChars)
      else ToolResultBlock t c)"
| "truncateBlock maxChars b = b"

definition truncateMessage :: "int \<Rightarrow> 'j Message \<Rightarrow> 'j Message" where
  "truncateMessage maxChars msg =
     (if role msg \<noteq> User then msg
      else case content msg of
        Str s \<Rightarrow> msg
      | Blocks blocks \<Rightarrow>
          if \<not> list_ex isToolResult blocks then msg
          else msg\<lparr>content := Blocks (map (truncateBlock maxChars) blocks)\<rparr>)"

definition truncateToolResults :: "'j Message list \<Rightarrow> int \<Rightarrow> 'j Message list" where
  "truncateToolResults messages maxChars = map (truncateMessage maxChars) messages"

subsection \<open>Cleanup: remove orphaned tool results\<close>

fun blockToolUseIds :: "'j ContentBlock \<Rightarrow> string list" where
  "blockToolUseIds (ToolUseBlock i n inp) = [i]"
| "blockToolUseIds b = []"

definition messageToolUseIds :: "'j Message \<Rightarrow> string list" where
  "messageToolUseIds msg =
     (if role msg = Assistant then
        (case content msg of
           Blocks blocks \<Rightarrow> concat (map blockToolUseIds blocks)
         | Str s \<Rightarrow> [])
      else [])"

definition toolUseIds :: "'j Message list \<Rightarrow> string set" where
  "toolUseIds messages = set (concat (map messageToolUseIds messages))"

fun keepBlock :: "string set \<Rightarrow> 'j ContentBlock \<Rightarrow> bool" where
  "keepBlock ids (ToolResultBlock t c) = (t \<in> ids)"
| "keepBlock ids b = True"

definition cleanMessage :: "string set \<Rightarrow> 'j Message \<Rightarrow> 'j Message option" where
  "cleanMessage ids msg =
     (if role msg \<noteq> User then Some msg
      else case content msg of
        Str s \<Rightarrow> Some msg
      | Blocks blocks \<Rightarrow>
          (let filtered = filter (keepBlock ids) blocks
           in if filtered = [] then None
              else Some (msg\<lparr>content := Blocks filtered\<rparr>)))"

definition removeOrphanedToolResults :: "'j Message list \<Rightarrow> 'j Message list" where
  "removeOrphanedToolResults messages =
     List.map_filter (cleanMessage (toolUseIds messages)) messages"

subsection \<open>Main entry point\<close>

text \<open>The configuration argument is any record with the two limits, as in the source's
  structural parameter type.\<close>

definition prepareContext :: "'j Message list \<Rightarrow> 'z Config_scheme \<Rightarrow> 'j Message list" where
  "prepareContext messages config =
     (let result = limitHistoryTurns messages (maxHistoryTurns config);
          maxResultChars = min (maxToolResultChars config) HARD_MAX_TOOL_RESULT_CHARS;
          result = truncateToolResults result maxResultChars;
          result = removeOrphanedToolResults result
      in result)"


section \<open>Session journal (session.ts)\<close>

text \<open>
  A session is kept in memory and appended to a JSONL file. The file system is a map from
  paths to file contents, and \<open>now\<close> is the value \<^verbatim>\<open>Date.now()\<close> reads. The functions
  \<^verbatim>\<open>JSON.stringify\<close> and \<^verbatim>\<open>JSON.parse\<close> belong to the language runtime and are
  parameters of the model. A parsed line is a syntax error, \<^verbatim>\<open>null\<close> (on which reading
  \<^verbatim>\<open>entry.type\<close> raises a TypeError), a journal entry of the declared types, or any
  other value (whose \<^verbatim>\<open>type\<close> is not \<^verbatim>\<open>"message"\<close>).
\<close>

text \<open>A thrown value: an \<^verbatim>\<open>Error\<close> object with its message, or any other value with
  its rendering by \<^verbatim>\<open>String(err)\<close>.\<close>

datatype Thrown = ErrorObject string | NonError string

datatype 'j JournalEntry =
    SessionEntry string int
  | MessageEntry Role "'j Content" int

datatype 'j Parsed = SyntaxError | JsonNull | Entry "'j JournalEntry" | OtherValue

record 'j Runtime =
  JSON_stringify :: "'j JournalEntry \<Rightarrow> string"
  JSON_parse :: "string \<Rightarrow> 'j Parsed"
  SESSIONS_DIR :: string

record World =
  files :: "string \<rightharpoonup> string"
  now :: int

record 'j Session =
  session_id :: string
  messages :: "'j Message list"
  filePath :: string




definition sessionFilePath :: "('j, 'r) Runtime_scheme \<Rightarrow> string \<Rightarrow> string" where
  "sessionFilePath rt sid = SESSIONS_DIR rt @ ''/'' @ sid @ ''.jsonl''"

definition appendFile :: "(string \<rightharpoonup> string) \<Rightarrow> string \<Rightarrow> string \<Rightarrow> (string \<rightharpoonup> string)" where
  "appendFile fs path s = fs(path \<mapsto> (case fs path of None \<Rightarrow> s | Some old \<Rightarrow> old @ s))"

text \<open>The session id is given by the caller; the random id the source draws when there
  is none, and the creation of the sessions directory, are left out.\<close>

definition createSession ::
  "'j Runtime \<Rightarrow> World \<Rightarrow> string \<Rightarrow> 'j Session \<times> World" where
  "createSession rt w sid =
     (let path = sessionFilePath rt sid;
          header = SessionEntry sid (now w)
      in (\<lparr>session_id = sid, messages = [], filePath = path\<rparr>,
          w\<lparr>files := (files w)(path \<mapsto> JSON_stringify rt header @ [newline])\<rparr>))"



definition appendMessage ::
  "'j Runtime \<Rightarrow> 'j Session \<times> World \<Rightarrow> 'j Message \<Rightarrow> 'j Session \<times> World" where
  "appendMessage rt sw message =
     (let session = fst sw; w = snd sw;
          entry = MessageEntry (role message) (content message) (now w)
      in (session\<lparr>messages := messages session @ [message]\<rparr>,
          w\<lparr>files := appendFile (files w) (filePath session)
                        (JSON_stringify rt entry @ [newline])\<rparr>))"


section \<open>Agent loop (agent.ts)\<close>

datatype 'j StreamEvent =
    Text string
  | ToolUse string string 'j
  | ToolStart string 'j
  | ToolEnd string string
  | MessageStop string

record 'j ToolDefinition =
  tool_name :: string
  tool_description :: string
  input_schema :: 'j

text \<open>An executor either returns its result string or throws (\<open>Inl\<close>); its effects on
  the outside world are not part of the model.\<close>

record 'j Tool =
  defn :: "'j ToolDefinition"
  execute :: "'j \<Rightarrow> Thrown + string"


record SlimClawConfig = Config +
  model :: string
  maxTokens :: int
  systemPrompt :: "string option"

record 'j Request =
  req_model :: string
  req_system :: string
  req_messages :: "'j Message list"
  req_tools :: "'j ToolDefinition list"
  req_max_tokens :: int

text \<open>
  One call of \<^verbatim>\<open>client.stream\<close>: from the client's own state and the request to the
  events it yields, the exception that ends the stream early (if any) and its next state.
\<close>

type_synonym ('j, 'c) LLMClient =
  "'c \<Rightarrow> 'j Request \<Rightarrow> 'j StreamEvent list \<times> Thrown option \<times> 'c"



definition thrownMessage :: "Thrown \<Rightarrow> string" where
  "thrownMessage err = (case err of ErrorObject m \<Rightarrow> m | NonError s \<Rightarrow> s)"

text \<open>\<open>Inl\<close> would be an exception leaving \<^verbatim>\<open>executeTool\<close>.\<close>

definition executeTool :: "string \<Rightarrow> 'j \<Rightarrow> 'j Tool list \<Rightarrow> Thrown + string" where
  "executeTool nm input tools =
     (case find (\<lambda>t. tool_name (defn t) = nm) tools of
        None \<Rightarrow> Inr (''Error: Unknown tool '' @ [CHR 0x22] @ nm @ [CHR 0x22])
      | Some tool \<Rightarrow>
          (case execute tool input of
             Inr result \<Rightarrow> Inr result
           | Inl err \<Rightarrow>
               Inr (''Error executing tool '' @ [CHR 0x22] @ nm @ [CHR 0x22] @ '': ''
                     @ thrownMessage err)))"

text \<open>The variables of one round of the \<^verbatim>\<open>while (true)\<close> loop, and the events the
  generator has yielded so far. The caller is taken to consume every event, so the
  generator runs to its end.\<close>

record 'j RoundAcc =
  currentText :: string
  toolUses :: "(string \<times> string \<times> 'j) list"
  stopReason :: string
  yielded :: "'j StreamEvent list"

fun consumeEvent :: "'j RoundAcc \<Rightarrow> 'j StreamEvent \<Rightarrow> 'j RoundAcc" where
  "consumeEvent acc (Text t) =
     acc\<lparr>currentText := currentText acc @ t, yielded := yielded acc @ [Text t]\<rparr>"
| "consumeEvent acc (ToolUse i n inp) = acc\<lparr>toolUses := toolUses acc @ [(i, n, inp)]\<rparr>"
| "consumeEvent acc (MessageStop r) = acc\<lparr>stopReason := r\<rparr>"
| "consumeEvent acc e = acc"

definition buildContentBlocks :: "'j RoundAcc \<Rightarrow> 'j ContentBlock list" where
  "buildContentBlocks acc =
     (if currentText acc \<noteq> [] then [TextBlock (currentText acc)] else [])
     @ map (\<lambda>(i, n, inp). ToolUseBlock i n inp) (toolUses acc)"

fun assistantContent :: "'j ContentBlock list \<Rightarrow> 'j Content" where
  "assistantContent [TextBlock t] = Str t"
| "assistantContent contentBlocks = Blocks contentBlocks"

text \<open>The \<^verbatim>\<open>for (const toolUse of toolUses)\<close> loop: the tool results collected and the
  events yielded; an exception out of \<^verbatim>\<open>executeTool\<close> would end it.\<close>

fun dispatchTools ::
  "'j Tool list \<Rightarrow> (string \<times> string \<times> 'j) list \<Rightarrow> 'j ContentBlock list \<Rightarrow> 'j StreamEvent list
   \<Rightarrow> Thrown option \<times> 'j ContentBlock list \<times> 'j StreamEvent list" where
  "dispatchTools tools [] toolResults out = (None, toolResults, out)"
| "dispatchTools tools ((i, n, inp) # rest) toolResults out =
     (case executeTool n inp tools of
        Inl e \<Rightarrow> (Some e, toolResults, out @ [ToolStart n inp])
      | Inr result \<Rightarrow>
          dispatchTools tools rest (toolResults @ [ToolResultBlock i result])
            (out @ [ToolStart n inp, ToolEnd n result]))"

record ('j, 'c) TurnState =
  session :: "'j Session"
  world :: World
  clientState :: 'c
  events :: "'j StreamEvent list"

datatype ('j, 'c) RoundResult =
    Done "('j, 'c) TurnState"
  | Continue "('j, 'c) TurnState"
  | Threw Thrown "('j, 'c) TurnState"

text \<open>One pass through the body of the \<^verbatim>\<open>while (true)\<close> loop: \<open>Done\<close> is the
  \<^verbatim>\<open>break\<close>, \<open>Continue\<close> the next iteration.\<close>

definition agentRound ::
  "'j Runtime \<Rightarrow> ('j, 'c) LLMClient \<Rightarrow> 'j Tool list \<Rightarrow> SlimClawConfig \<Rightarrow> string
   \<Rightarrow> ('j, 'c) TurnState \<Rightarrow> ('j, 'c) RoundResult" where
  "agentRound rt client tools config system st =
     (let contextMessages = prepareContext (messages (session st)) config;
          response = client (clientState st)
                       \<lparr>req_model = model config, req_system = system,
                        req_messages = contextMessages,
                        req_tools = map defn tools,
                        req_max_tokens = maxTokens config\<rparr>;
          acc = foldl consumeEvent
                  \<lparr>currentText = [], toolUses = [], stopReason = ''end_turn'',
                   yielded = events st\<rparr>
                  (fst response);
          st = st\<lparr>clientState := snd (snd response), events := yielded acc\<rparr>
      in case fst (snd response) of
           Some e \<Rightarrow> Threw e st
         | None \<Rightarrow>
             (let contentBlocks = buildContentBlocks acc;
                  sw = appendMessage rt (session st, world st)
                         \<lparr>role = Assistant, content = assistantContent contentBlocks\<rparr>;
                  st = st\<lparr>session := fst sw, world := snd sw\<rparr>
              in if toolUses acc = [] then Done st
                 else
                   (let res = dispatchTools tools (toolUses acc) [] (events st);
                        st = st\<lparr>events := snd (snd res)\<rparr>
                    in case fst res of
                         Some e \<Rightarrow> Threw e st
                       | None \<Rightarrow>
                           (let sw = appendMessage rt (session st, world st)
                                       \<lparr>role = User, content = Blocks (fst (snd res))\<rparr>
                            in Continue (st\<lparr>session := fst sw, world := snd sw\<rparr>)))))"

text \<open>The loop has no bound on its rounds, so it is a partial function: \<open>None\<close> is a turn
  that never ends. A finished turn returns the exception that ended it, if any, and the
  final state.\<close>

partial_function (option) agentLoop ::
  "'j Runtime \<Rightarrow> ('j, 'c) LLMClient \<Rightarrow> 'j Tool list \<Rightarrow> SlimClawConfig \<Rightarrow> string
   \<Rightarrow> ('j, 'c) TurnState \<Rightarrow> (Thrown option \<times> ('j, 'c) TurnState) option" where
  "agentLoop rt client tools config system st =
     (case agentRound rt client tools config system st of
        Done st' \<Rightarrow> Some (None, st')
      | Threw e st' \<Rightarrow> Some (Some e, st')
      | Continue st' \<Rightarrow> agentLoop rt client tools config system st')"


section \<open>Provider adapters (agent.ts)\<close>

text \<open>
  What the adapters do with a completed upstream response. The Anthropic SDK delivers stream
  events and then the final message; the OpenAI SDK delivers chunks. Building the upstream
  request and upstream failures are not part of this model.
\<close>

datatype AnthropicDelta = TextDelta string | InputJsonDelta string | OtherDelta

datatype AnthropicEvent = ContentBlockDelta AnthropicDelta | OtherEvent

datatype 'j AnthropicBlock = AText string | AToolUse string string 'j | AOther

record 'j AnthropicMessage =
  final_content :: "'j AnthropicBlock list"
  stop_reason :: "string option"

fun anthropicDeltaEvents :: "AnthropicEvent \<Rightarrow> 'j StreamEvent list" where
  "anthropicDeltaEvents (ContentBlockDelta (TextDelta t)) = [Text t]"
| "anthropicDeltaEvents e = []"

fun anthropicBlockEvents :: "'j AnthropicBlock \<Rightarrow> 'j StreamEvent list" where
  "anthropicBlockEvents (AToolUse i n inp) = [ToolUse i n inp]"
| "anthropicBlockEvents b = []"

definition AnthropicClient_stream ::
  "AnthropicEvent list \<Rightarrow> 'j AnthropicMessage \<Rightarrow> 'j StreamEvent list" where
  "AnthropicClient_stream stream finalMessage =
     concat (map anthropicDeltaEvents stream)
     @ concat (map anthropicBlockEvents (final_content finalMessage))
     @ [MessageStop (case stop_reason finalMessage of None \<Rightarrow> ''end_turn'' | Some r \<Rightarrow> r)]"

record FunctionDelta =
  fn_name :: "string option"
  arguments :: "string option"

record ToolCallDelta =
  index :: int
  tc_id :: "string option"
  tc_function :: "FunctionDelta option"

record Delta =
  delta_content :: "string option"
  tool_calls :: "ToolCallDelta list option"

record Choice =
  delta :: "Delta option"
  finish_reason :: "string option"

record Chunk =
  choices :: "Choice list"

record ToolCallAcc =
  acc_id :: string
  acc_name :: string
  acc_args :: string

text \<open>A truthy optional string: present and not empty.\<close>

fun truthy :: "string option \<Rightarrow> bool" where
  "truthy None = False"
| "truthy (Some s) = (s \<noteq> [])"

text \<open>The \<^verbatim>\<open>Map<number, ...>\<close> of tool calls, in insertion order.\<close>

fun mapSet :: "(int \<times> ToolCallAcc) list \<Rightarrow> int \<Rightarrow> ToolCallAcc \<Rightarrow> (int \<times> ToolCallAcc) list" where
  "mapSet [] k v = [(k, v)]"
| "mapSet ((k', v') # m) k v = (if k' = k then (k, v) # m else (k', v') # mapSet m k v)"

definition functionName :: "ToolCallDelta \<Rightarrow> string option" where
  "functionName tc = (case tc_function tc of None \<Rightarrow> None | Some f \<Rightarrow> fn_name f)"

definition functionArguments :: "ToolCallDelta \<Rightarrow> string option" where
  "functionArguments tc = (case tc_function tc of None \<Rightarrow> None | Some f \<Rightarrow> arguments f)"

definition accumulateToolCall ::
  "(int \<times> ToolCallAcc) list \<Rightarrow> ToolCallDelta \<Rightarrow> (int \<times> ToolCallAcc) list" where
  "accumulateToolCall toolCalls tc =
     (let toolCalls =
            (if map_of toolCalls (index tc) = None then
               mapSet toolCalls (index tc)
                 \<lparr>acc_id = (case tc_id tc of None \<Rightarrow> [] | Some i \<Rightarrow> i),
                  acc_name = (case functionName tc of None \<Rightarrow> [] | Some n \<Rightarrow> n),
                  acc_args = []\<rparr>
             else toolCalls);
          existing = the (map_of toolCalls (index tc));
          existing = (if truthy (tc_id tc) then existing\<lparr>acc_id := the (tc_id tc)\<rparr>
                      else existing);
          existing = (if truthy (functionName tc)
                      then existing\<lparr>acc_name := the (functionName tc)\<rparr> else existing);
          existing = (if truthy (functionArguments tc)
                      then existing\<lparr>acc_args := acc_args existing @ the (functionArguments tc)\<rparr>
                      else existing)
      in mapSet toolCalls (index tc) existing)"

record 'j OpenAIAcc =
  oa_toolCalls :: "(int \<times> ToolCallAcc) list"
  oa_stopReason :: string
  oa_yielded :: "'j StreamEvent list"

definition openaiChunk :: "'j OpenAIAcc \<Rightarrow> Chunk \<Rightarrow> 'j OpenAIAcc" where
  "openaiChunk acc chunk =
     (case (case choices chunk of [] \<Rightarrow> None | c # cs \<Rightarrow> delta c) of
        None \<Rightarrow> acc
      | Some d \<Rightarrow>
          (let acc = (if truthy (delta_content d)
                      then acc\<lparr>oa_yielded := oa_yielded acc @ [Text (the (delta_content d))]\<rparr>
                      else acc);
               acc = (case tool_calls d of
                        None \<Rightarrow> acc
                      | Some tcs \<Rightarrow>
                          acc\<lparr>oa_toolCalls := foldl accumulateToolCall (oa_toolCalls acc) tcs\<rparr>);
               finishReason = (case choices chunk of [] \<Rightarrow> None | c # cs \<Rightarrow> finish_reason c)
           in if finishReason = Some ''tool_calls'' then acc\<lparr>oa_stopReason := ''tool_use''\<rparr>
              else if finishReason = Some ''stop'' then acc\<lparr>oa_stopReason := ''end_turn''\<rparr>
              else acc))"

text \<open>\<open>parseJSON\<close> is \<^verbatim>\<open>JSON.parse\<close> on the argument text (\<open>None\<close> when it throws),
  \<open>emptyObject\<close> the value \<^verbatim>\<open>{}\<close>.\<close>

definition OpenAIClient_stream ::
  "(string \<Rightarrow> 'j option) \<Rightarrow> 'j \<Rightarrow> Chunk list \<Rightarrow> 'j StreamEvent list" where
  "OpenAIClient_stream parseJSON emptyObject stream =
     (let acc = foldl openaiChunk
                  \<lparr>oa_toolCalls = [], oa_stopReason = ''end_turn'', oa_yielded = []\<rparr> stream
      in oa_yielded acc
         @ map (\<lambda>(k, tc).
                  ToolUse (acc_id tc) (acc_name tc)
                    (case parseJSON (acc_args tc) of None \<Rightarrow> emptyObject | Some v \<Rightarrow> v))
               (oa_toolCalls acc)
         @ [MessageStop (oa_stopReason acc)])"


section \<open>Vocabulary of the properties\<close>

text \<open>The number of user-role messages in a message list.\<close>

definition userCount :: "'j Message list \<Rightarrow> nat" where
  "userCount ms = length (filter (\<lambda>m. role m = User) ms)"

text \<open>The longest string the language allows, and message lists whose tool results
  respect it.\<close>

definition maxStringLength :: nat where
  "maxStringLength = 2 ^ 53 - 1"

fun blockSized :: "'j ContentBlock \<Rightarrow> bool" where
  "blockSized (ToolResultBlock t c) = (length c \<le> maxStringLength)"
| "blockSized b = True"

definition messageSized :: "'j Message \<Rightarrow> bool" where
  "messageSized m = (case content m of Str s \<Rightarrow> True | Blocks bs \<Rightarrow> list_all blockSized bs)"

definition wellSized :: "'j Message list \<Rightarrow> bool" where
  "wellSized ms = list_all messageSized ms"

text \<open>A message is settled for a cap when layer 2 has nothing left to cut in it.\<close>

fun blockSettled :: "int \<Rightarrow> 'j ContentBlock \<Rightarrow> bool" where
  "blockSettled cap (ToolResultBlock t c) = (int (length c) \<le> cap)"
| "blockSettled cap b = True"

definition messageSettled :: "int \<Rightarrow> 'j Message \<Rightarrow> bool" where
  "messageSettled cap m =
     (case content m of
        Str s \<Rightarrow> True
      | Blocks bs \<Rightarrow> role m = User \<longrightarrow> list_all (blockSettled cap) bs)"

text \<open>What one round's stream amounts to for the loop: the concatenated text, the tool
  uses in emission order, and the text events passed on to the caller.\<close>

fun eventText :: "'j StreamEvent \<Rightarrow> string" where
  "eventText (Text t) = t"
| "eventText e = []"

fun eventToolUse :: "'j StreamEvent \<Rightarrow> (string \<times> string \<times> 'j) list" where
  "eventToolUse (ToolUse i n inp) = [(i, n, inp)]"
| "eventToolUse e = []"

fun isText :: "'j StreamEvent \<Rightarrow> bool" where
  "isText (Text t) = True"
| "isText e = False"

fun isMessageStop :: "'j StreamEvent \<Rightarrow> bool" where
  "isMessageStop (MessageStop r) = True"
| "isMessageStop e = False"

definition roundText :: "'j StreamEvent list \<Rightarrow> string" where
  "roundText evs = concat (map eventText evs)"

definition roundToolUses :: "'j StreamEvent list \<Rightarrow> (string \<times> string \<times> 'j) list" where
  "roundToolUses evs = concat (map eventToolUse evs)"

definition textEvents :: "'j StreamEvent list \<Rightarrow> 'j StreamEvent list" where
  "textEvents evs = filter isText evs"

text \<open>The content blocks of the assistant message a round assembles.\<close>

definition roundBlocks :: "'j StreamEvent list \<Rightarrow> 'j ContentBlock list" where
  "roundBlocks evs =
     (if roundText evs \<noteq> [] then [TextBlock (roundText evs)] else [])
     @ map (\<lambda>(i, n, inp). ToolUseBlock i n inp) (roundToolUses evs)"

text \<open>The request a round sends when the session holds the given messages.\<close>

definition requestFor ::
  "'j Tool list \<Rightarrow> SlimClawConfig \<Rightarrow> string \<Rightarrow> 'j Message list \<Rightarrow> 'j Request" where
  "requestFor tools config system msgs =
     \<lparr>req_model = model config, req_system = system,
      req_messages = prepareContext msgs config,
      req_tools = map defn tools,
      req_max_tokens = maxTokens config\<rparr>"

text \<open>The result string of a tool call, and the tool-result block it becomes.\<close>

definition toolOutcome :: "'j Tool list \<Rightarrow> string \<times> string \<times> 'j \<Rightarrow> string" where
  "toolOutcome tools u =
     (case executeTool (fst (snd u)) (snd (snd u)) tools of Inr r \<Rightarrow> r | Inl e \<Rightarrow> [])"

definition toolResultOf :: "'j Tool list \<Rightarrow> string \<times> string \<times> 'j \<Rightarrow> 'j ContentBlock" where
  "toolResultOf tools u = ToolResultBlock (fst u) (toolOutcome tools u)"

definition toolEventsOf :: "'j Tool list \<Rightarrow> string \<times> string \<times> 'j \<Rightarrow> 'j StreamEvent list" where
  "toolEventsOf tools u =
     [ToolStart (fst (snd u)) (snd (snd u)), ToolEnd (fst (snd u)) (toolOutcome tools u)]"

text \<open>A client whose stop reasons are rewritten by \<open>f\<close>, everything else left alone.\<close>

fun retagStop :: "(string \<Rightarrow> string) \<Rightarrow> 'j StreamEvent \<Rightarrow> 'j StreamEvent" where
  "retagStop f (MessageStop r) = MessageStop (f r)"
| "retagStop f e = e"

definition mapStops :: "(string \<Rightarrow> string) \<Rightarrow> ('j, 'c) LLMClient \<Rightarrow> ('j, 'c) LLMClient" where
  "mapStops f client cs req =
     (map (retagStop f) (fst (client cs req)), snd (client cs req))"

text \<open>The delta and the finish reason of a chunk's first choice, if it has one.\<close>

definition chunkDelta :: "Chunk \<Rightarrow> Delta option" where
  "chunkDelta chunk = (case choices chunk of [] \<Rightarrow> None | c # cs \<Rightarrow> delta c)"

definition chunkFinish :: "Chunk \<Rightarrow> string option" where
  "chunkFinish chunk = (case choices chunk of [] \<Rightarrow> None | c # cs \<Rightarrow> finish_reason c)"

section \<open>Test fixtures (tests/helpers.ts, tests/agent.test.ts)\<close>

definition testConfig :: SlimClawConfig where
  "testConfig =
     \<lparr>maxHistoryTurns = 50, maxToolResultChars = 100000,
      model = ''claude-sonnet-4-20250514'', maxTokens = 1024, systemPrompt = None\<rparr>"

record 'j MockResponse =
  mr_text :: "string option"
  mr_toolUses :: "(string \<times> string \<times> 'j) list option"
  mr_stop_reason :: "string option"

text \<open>The mock client returns canned responses in sequence; its state is \<open>callIndex\<close>.\<close>

definition mockLLMClient :: "'j MockResponse list \<Rightarrow> ('j, nat) LLMClient" where
  "mockLLMClient responses callIndex params =
     (if callIndex < length responses then
        (let response = responses ! callIndex
         in ((if truthy (mr_text response) then [Text (the (mr_text response))] else [])
             @ (case mr_toolUses response of
                  None \<Rightarrow> []
                | Some tus \<Rightarrow> map (\<lambda>(i, n, inp). ToolUse i n inp) tus)
             @ [MessageStop
                  (case mr_stop_reason response of
                     Some r \<Rightarrow> r
                   | None \<Rightarrow> (case mr_toolUses response of
                                Some tus \<Rightarrow> ''tool_use''
                              | None \<Rightarrow> ''end_turn''))],
             None, callIndex + 1))
      else ([], Some (ErrorObject ''No more mock responses available''), callIndex + 1))"

definition createTestTool :: "string \<Rightarrow> ('j \<Rightarrow> string) \<Rightarrow> 'j \<Rightarrow> 'j Tool" where
  "createTestTool nm handler schema =
     \<lparr>defn = \<lparr>tool_name = nm, tool_description = ''Test tool: '' @ nm, input_schema = schema\<rparr>,
      execute = (\<lambda>input. Inr (handler input))\<rparr>"

definition failTool :: "'j \<Rightarrow> 'j Tool" where
  "failTool schema =
     \<lparr>defn = \<lparr>tool_name = ''fail'', tool_description = ''Always fails'', input_schema = schema\<rparr>,
      execute = (\<lambda>input. Inl (ErrorObject ''Something broke''))\<rparr>"

text \<open>A stand-in for the JSON functions of the runtime, given by a table of entries and
  their texts; a text outside the table does not parse.\<close>

definition tableRuntime :: "('j JournalEntry \<times> string) list \<Rightarrow> 'j Runtime" where
  "tableRuntime table =
     \<lparr>JSON_stringify = (\<lambda>e. case map_of table e of Some s \<Rightarrow> s | None \<Rightarrow> ''{}''),
      JSON_parse = (\<lambda>s. case find (\<lambda>p. snd p = s) table of
                           Some p \<Rightarrow> Entry (fst p)
                         | None \<Rightarrow> SyntaxError),
      SESSIONS_DIR = ''sessions''\<rparr>"

definition freshTurn :: "'j Runtime \<Rightarrow> string \<Rightarrow> ('j, nat) TurnState" where
  "freshTurn rt sid =
     (let sw = createSession rt \<lparr>files = Map.empty, now = 0\<rparr> sid
      in \<lparr>session = fst sw, world = snd sw, clientState = 0, events = []\<rparr>)"











section \<open>Text truncation\<close>

lemma lastIndexFrom_range:
  "lastIndexFrom s c k = - 1 \<or>
   (0 \<le> lastIndexFrom s c k \<and> lastIndexFrom s c k \<le> int k \<and> s ! nat (lastIndexFrom s c k) = c)"
proof (induction k)
  case 0
  show ?case by simp
next
  case (Suc k)
  have "nat (1 + int k) = Suc k" by simp
  with Suc show ?case by auto
qed

lemma lastIndexFrom_absent:
  "c \<notin> set s \<Longrightarrow> k < length s \<Longrightarrow> lastIndexFrom s c k = - 1"
  by (induction k) auto

lemma lastIndexOf_range:
  assumes "0 \<le> pos"
  shows "lastIndexOf s c pos = - 1 \<or>
   (0 \<le> lastIndexOf s c pos \<and> lastIndexOf s c pos \<le> pos
    \<and> lastIndexOf s c pos < int (length s) \<and> s ! nat (lastIndexOf s c pos) = c)"
proof (cases "s = []")
  case True
  then show ?thesis by (simp add: lastIndexOf_def)
next
  case False
  define k where "k = nat (min (max pos 0) (int (length s) - 1))"
  have "0 < length s" using False by simp
  then have k: "k < length s" "int k \<le> pos" using assms unfolding k_def by linarith+
  have eq: "lastIndexOf s c pos = lastIndexFrom s c k"
    using False by (simp add: lastIndexOf_def k_def)
  from lastIndexFrom_range [of s c k] k show ?thesis
    unfolding eq by auto
qed

lemma lastIndexOf_absent:
  assumes "c \<notin> set s"
  shows "lastIndexOf s c pos = - 1"
proof (cases "s = []")
  case True
  then show ?thesis by (simp add: lastIndexOf_def)
next
  case False
  then have "0 < length s" by simp
  then have "nat (min (max pos 0) (int (length s) - 1)) < length s" by linarith
  then show ?thesis using False assms by (simp add: lastIndexOf_def lastIndexFrom_absent)
qed

lemma truncateToolResult_eq: "truncateToolResult text maxChars = truncateText text maxChars"
  by (simp add: truncateToolResult_def truncateText_def)

lemma truncateText_short: "int (length text) \<le> maxChars \<Longrightarrow> truncateText text maxChars = text"
  by (simp add: truncateText_def)

lemma truncateText_long:
  assumes "maxChars < int (length text)"
  shows "\<exists>cutAt. truncateText text maxChars = slice0 text cutAt @ truncMarker cutAt (length text)
       \<and> max MIN_KEEP_CHARS (maxChars - 100) * 4 div 5 < cutAt
       \<and> cutAt \<le> max MIN_KEEP_CHARS (maxChars - 100)
       \<and> (cutAt = max MIN_KEEP_CHARS (maxChars - 100)
           \<or> (cutAt < int (length text) \<and> text ! nat cutAt = newline))"
proof -
  define keep where "keep = max MIN_KEEP_CHARS (maxChars - 100)"
  define ln where "ln = lastIndexOf text newline keep"
  define cutAt where "cutAt = (if ln > keep * 4 div 5 then ln else keep)"
  have keep_pos: "2000 \<le> keep" by (simp add: keep_def MIN_KEEP_CHARS_def)
  have eq: "truncateText text maxChars = slice0 text cutAt @ truncMarker cutAt (length text)"
    using assms by (simp add: truncateText_def Let_def keep_def ln_def cutAt_def)
  have rng: "ln = - 1 \<or> (0 \<le> ln \<and> ln \<le> keep \<and> ln < int (length text) \<and> text ! nat ln = newline)"
    unfolding ln_def using lastIndexOf_range [of keep "text" newline] keep_pos by simp
  have "keep * 4 div 5 < cutAt \<and> cutAt \<le> keep
        \<and> (cutAt = keep \<or> (cutAt < int (length text) \<and> text ! nat cutAt = newline))"
    using rng keep_pos by (auto simp: cutAt_def)
  with eq show ?thesis unfolding keep_def by blast
qed

lemma length_showNat_le: "0 < d \<Longrightarrow> n < 10 ^ d \<Longrightarrow> length (showNat n) \<le> d"
proof (induction d arbitrary: n)
  case 0
  then show ?case by simp
next
  case (Suc d)
  show ?case
  proof (cases "n < 10")
    case True
    then show ?thesis by (subst showNat.simps) simp
  next
    case False
    then have d: "0 < d" using Suc.prems(2) by (cases d) auto
    have "n div 10 < 10 ^ d" using Suc.prems(2) by (simp add: less_mult_imp_div_less mult.commute)
    with Suc.IH [OF d] have "length (showNat (n div 10)) \<le> d" by simp
    then show ?thesis using False by (subst showNat.simps) simp
  qed
qed

lemma length_truncMarker:
  "0 \<le> c \<Longrightarrow> length (truncMarker c n) = 44 + length (showNat (nat c)) + length (showNat n)"
  by (simp add: truncMarker_def showInt_def)

lemma truncateText_fits:
  assumes cap: "2100 \<le> cap"
    and len: "length s \<le> maxStringLength"
  shows "int (length (truncateText s cap)) \<le> cap"
proof (cases "int (length s) \<le> cap")
  case True
  then show ?thesis by (simp add: truncateText_short)
next
  case False
  then have long: "cap < int (length s)" by simp
  from truncateText_long [OF long] obtain c where
    c: "truncateText s cap = slice0 s c @ truncMarker c (length s)"
       "max MIN_KEEP_CHARS (cap - 100) * 4 div 5 < c"
       "c \<le> max MIN_KEEP_CHARS (cap - 100)"
    by blast
  have keep: "max MIN_KEEP_CHARS (cap - 100) = cap - 100"
    using cap by (simp add: MIN_KEEP_CHARS_def)
  have c0: "0 \<le> c" "c \<le> cap - 100" using c(2,3) keep cap by auto
  have big: "length s < 10 ^ 16" using len by (simp add: maxStringLength_def)
  then have d2: "length (showNat (length s)) \<le> 16" by (rule length_showNat_le [rotated]) simp
  have "nat c < length s" using c0 long by linarith
  then have "nat c < 10 ^ 16" using big by linarith
  then have d1: "length (showNat (nat c)) \<le> 16" by (rule length_showNat_le [rotated]) simp
  have "length (slice0 s c) \<le> nat c" using c0 by (simp add: slice0_def)
  then have "length (truncateText s cap) \<le> nat c + (44 + 16 + 16)"
    using d1 d2 c0 by (simp add: c(1) length_truncMarker)
  then show ?thesis using c0 by linarith
qed

text \<open>
  Claim C3, as amended. For every string and every cap of at least the minimum-keep floor,
  both copies of the truncation function agree; a string no longer than the cap is returned
  unchanged, whatever its length; a longer string is cut to its first \<open>cutAt\<close> characters
  followed by the marker, where \<open>cutAt\<close> is more than 80% of
  \<open>keep = max 2000 (cap - 100)\<close> (hence more than 1600), at most \<open>keep\<close> and less than
  the original length, and the output length is \<open>cutAt\<close> plus the marker's length. From a
  cap of 2100 on (the floor plus the 100 characters set aside for the marker) the output is
  no longer than the cap and no longer than the original; from a cap of 2600 on (where 80%
  of \<open>keep\<close> reaches the floor) the output of a string longer than the cap has at least
  the floor's length.
\<close>

theorem C3_truncation_shape:
  assumes "MIN_KEEP_CHARS \<le> cap"
  shows "truncateToolResult text cap = truncateText text cap
    \<and> (int (length text) \<le> cap \<longrightarrow> truncateText text cap = text)
    \<and> (cap < int (length text) \<longrightarrow>
         (\<exists>cutAt. truncateText text cap = take cutAt text @ truncMarker (int cutAt) (length text)
            \<and> 1600 < cutAt
            \<and> max MIN_KEEP_CHARS (cap - 100) * 4 div 5 < int cutAt
            \<and> int cutAt \<le> max MIN_KEEP_CHARS (cap - 100)
            \<and> cutAt < length text
            \<and> length (truncateText text cap) = cutAt + length (truncMarker (int cutAt) (length text))))
    \<and> (2100 \<le> cap \<and> length text \<le> maxStringLength \<longrightarrow>
         int (length (truncateText text cap)) \<le> cap
         \<and> length (truncateText text cap) \<le> length text)
    \<and> (2600 \<le> cap \<and> cap < int (length text) \<longrightarrow>
         MIN_KEEP_CHARS \<le> int (length (truncateText text cap)))"
proof (intro conjI impI)
  show "truncateToolResult text cap = truncateText text cap" by (rule truncateToolResult_eq)
next
  assume "int (length text) \<le> cap"
  then show "truncateText text cap = text" by (rule truncateText_short)
next
  assume long: "cap < int (length text)"
  from truncateText_long [OF long] obtain c where
    c: "truncateText text cap = slice0 text c @ truncMarker c (length text)"
       "max MIN_KEEP_CHARS (cap - 100) * 4 div 5 < c"
       "c \<le> max MIN_KEEP_CHARS (cap - 100)"
    by blast
  have k: "max MIN_KEEP_CHARS (cap - 100) \<le> cap" using assms by simp
  have c0: "1600 < c" using c(2) by (simp add: MIN_KEEP_CHARS_def max_def split: if_splits)
  have clt: "c < int (length text)" using c(3) k long by linarith
  have sl: "slice0 text c = take (nat c) text" using c0 by (simp add: slice0_def)
  show "\<exists>cutAt. truncateText text cap = take cutAt text @ truncMarker (int cutAt) (length text)
            \<and> 1600 < cutAt
            \<and> max MIN_KEEP_CHARS (cap - 100) * 4 div 5 < int cutAt
            \<and> int cutAt \<le> max MIN_KEEP_CHARS (cap - 100)
            \<and> cutAt < length text
            \<and> length (truncateText text cap) = cutAt + length (truncMarker (int cutAt) (length text))"
    apply (rule exI [of _ "nat c"])
    using c c0 clt sl by (auto simp: min_def)
next
  assume a: "2100 \<le> cap \<and> length text \<le> maxStringLength"
  then show fits: "int (length (truncateText text cap)) \<le> cap"
    by (simp add: truncateText_fits)
  show "length (truncateText text cap) \<le> length text"
  proof (cases "int (length text) \<le> cap")
    case True
    then show ?thesis by (simp add: truncateText_short)
  next
    case False
    then show ?thesis using fits by linarith
  qed
next
  assume a: "2600 \<le> cap \<and> cap < int (length text)"
  then have long: "cap < int (length text)" by simp
  from truncateText_long [OF long] obtain c where
    c: "truncateText text cap = slice0 text c @ truncMarker c (length text)"
       "max MIN_KEEP_CHARS (cap - 100) * 4 div 5 < c"
       "c \<le> max MIN_KEEP_CHARS (cap - 100)"
    by blast
  have keep: "max MIN_KEEP_CHARS (cap - 100) = cap - 100"
    using a by (simp add: MIN_KEEP_CHARS_def)
  have "2600 \<le> cap" using a by simp
  then have "2000 \<le> (cap - 100) * 4 div 5" by presburger
  then have c0: "2000 < c" using c(2) keep by simp
  have "c < int (length text)" using c(3) keep long by linarith
  then have "nat c \<le> length text" using c0 by linarith
  then have "length (slice0 text c) = nat c" using c0 by (simp add: slice0_def)
  then have "nat c \<le> length (truncateText text cap)" by (simp add: c(1))
  then show "MIN_KEEP_CHARS \<le> int (length (truncateText text cap))"
    using c0 by (simp add: MIN_KEEP_CHARS_def)
qed

text \<open>
  The claim as stated fails in both directions: a three-character string stays three
  characters long, below the floor, and 2001 characters under a cap of 2000 become
  2052 characters, more than the original.
\<close>

theorem C3_truncation_bounds_counterexample:
  "length (truncateText ''abc'' 2000) < 2000
   \<and> length (replicate 2001 CHR ''a'') < length (truncateText (replicate 2001 CHR ''a'') 2000)"
  by (simp add: truncateText_def MIN_KEEP_CHARS_def Let_def lastIndexOf_absent newline_def
        slice0_def truncMarker_def)

theorem C3_truncation_shape_witness:
  "MIN_KEEP_CHARS \<le> 2600
   \<and> truncateText ''abc'' 2600 = ''abc''
   \<and> MIN_KEEP_CHARS \<le> int (length (truncateText (replicate 3000 CHR ''a'') 2600))
   \<and> int (length (truncateText (replicate 3000 CHR ''a'') 2600)) \<le> 2600
   \<and> length (truncateText (replicate 3000 CHR ''a'') 2600) \<le> length (replicate 3000 CHR ''a'')"
proof -
  have h: "MIN_KEEP_CHARS \<le> 2600" by (simp add: MIN_KEEP_CHARS_def)
  have short: "int (length ''abc'') \<le> 2600" by simp
  have sized: "2100 \<le> (2600 :: int) \<and> length (replicate 3000 CHR ''a'') \<le> maxStringLength"
    by (simp add: maxStringLength_def)
  have long: "2600 \<le> (2600 :: int) \<and> 2600 < int (length (replicate 3000 CHR ''a''))"
    by simp
  have a: "truncateText ''abc'' 2600 = ''abc''"
    using C3_truncation_shape [OF h, of "''abc''"] short by blast
  have b: "MIN_KEEP_CHARS \<le> int (length (truncateText (replicate 3000 CHR ''a'') 2600))
     \<and> int (length (truncateText (replicate 3000 CHR ''a'') 2600)) \<le> 2600
     \<and> length (truncateText (replicate 3000 CHR ''a'') 2600) \<le> length (replicate 3000 CHR ''a'')"
    using C3_truncation_shape [OF h, of "replicate 3000 CHR ''a''"] sized long by blast
  from h a b show ?thesis by blast
qed

section \<open>Layer 1: the history window\<close>

lemma userCount_Nil [simp]: "userCount [] = 0"
  by (simp add: userCount_def)

lemma userCount_append [simp]: "userCount (xs @ ys) = userCount xs + userCount ys"
  by (simp add: userCount_def)

lemma userCount_single [simp]: "userCount [m] = (if role m = User then 1 else 0)"
  by (simp add: userCount_def)

lemma limitLoop_all:
  "n \<le> length ms \<Longrightarrow> int (userCount (take n ms)) + uc \<le> k \<Longrightarrow> limitLoop ms k n uc = 0"
proof (induction n arbitrary: uc)
  case 0
  show ?case by simp
next
  case (Suc n)
  then have n: "n < length ms" by simp
  have tk: "take (Suc n) ms = take n ms @ [ms ! n]"
    using n by (simp add: take_Suc_conv_app_nth)
  show ?case
  proof (cases "role (ms ! n) = User")
    case True
    with Suc.prems tk have le: "int (userCount (take n ms)) + (uc + 1) \<le> k" by simp
    then have "\<not> uc + 1 > k" by linarith
    moreover have "limitLoop ms k n (uc + 1) = 0"
      using Suc.IH [of "uc + 1"] n le by simp
    ultimately show ?thesis using True by simp
  next
    case False
    with Suc.prems tk have le: "int (userCount (take n ms)) + uc \<le> k" by simp
    have "limitLoop ms k n uc = 0" using Suc.IH [of uc] n le by simp
    then show ?thesis using False by simp
  qed
qed

lemma limitLoop_cut:
  "n \<le> length ms \<Longrightarrow> uc \<le> k \<Longrightarrow> k < int (userCount (take n ms)) + uc \<Longrightarrow>
   0 < limitLoop ms k n uc \<and> limitLoop ms k n uc \<le> n
   \<and> role (ms ! (limitLoop ms k n uc - 1)) = User
   \<and> int (userCount (drop (limitLoop ms k n uc) (take n ms))) + uc = k"
proof (induction n arbitrary: uc)
  case 0
  then show ?case by simp
next
  case (Suc n)
  then have n: "n < length ms" by simp
  have tk: "take (Suc n) ms = take n ms @ [ms ! n]"
    using n by (simp add: take_Suc_conv_app_nth)
  show ?case
  proof (cases "role (ms ! n) = User")
    case True
    show ?thesis
    proof (cases "uc + 1 > k")
      case gt: True
      then have uck: "uc = k" using Suc.prems by linarith
      have "limitLoop ms k (Suc n) uc = Suc n" using True gt by simp
      then show ?thesis using True uck n by simp
    next
      case le: False
      have lt: "k < int (userCount (take n ms)) + (uc + 1)"
        using Suc.prems tk True by simp
      have ih: "0 < limitLoop ms k n (uc + 1) \<and> limitLoop ms k n (uc + 1) \<le> n
        \<and> role (ms ! (limitLoop ms k n (uc + 1) - 1)) = User
        \<and> int (userCount (drop (limitLoop ms k n (uc + 1)) (take n ms))) + (uc + 1) = k"
        using Suc.IH [of "uc + 1"] n le lt by simp
      have eq: "limitLoop ms k (Suc n) uc = limitLoop ms k n (uc + 1)"
        using True le by simp
      have len: "limitLoop ms k n (uc + 1) \<le> length (take n ms)" using ih n by simp
      show ?thesis unfolding eq tk using ih True len by simp
    qed
  next
    case False
    have lt: "k < int (userCount (take n ms)) + uc"
      using Suc.prems tk False by simp
    have ih: "0 < limitLoop ms k n uc \<and> limitLoop ms k n uc \<le> n
        \<and> role (ms ! (limitLoop ms k n uc - 1)) = User
        \<and> int (userCount (drop (limitLoop ms k n uc) (take n ms))) + uc = k"
      using Suc.IH [of uc] n Suc.prems(2) lt by simp
    have eq: "limitLoop ms k (Suc n) uc = limitLoop ms k n uc"
      using False by simp
    have len: "limitLoop ms k n uc \<le> length (take n ms)" using ih n by simp
    show ?thesis unfolding eq tk using ih False len by simp
  qed
qed

lemma limitHistoryTurns_disabled: "k \<le> 0 \<Longrightarrow> limitHistoryTurns ms k = ms"
  by (simp add: limitHistoryTurns_def)

lemma limitHistoryTurns_small:
  "int (userCount ms) \<le> k \<Longrightarrow> limitHistoryTurns ms k = ms"
  using limitLoop_all [of "length ms" ms 0 k]
  by (simp add: limitHistoryTurns_def)

lemma limitHistoryTurns_cut:
  assumes "0 < k" "k < int (userCount ms)"
  shows "\<exists>c. 0 < c \<and> c < length ms \<and> limitHistoryTurns ms k = drop c ms
           \<and> role (ms ! (c - 1)) = User \<and> int (userCount (drop c ms)) = k"
proof -
  define c where "c = limitLoop ms k (length ms) 0"
  have f: "0 < c \<and> c \<le> length ms \<and> role (ms ! (c - 1)) = User
           \<and> int (userCount (drop c ms)) = k"
    using limitLoop_cut [of "length ms" ms 0 k] assms by (simp add: c_def)
  have "c \<noteq> length ms" using f assms(1) by auto
  then have "c < length ms" using f by simp
  moreover have "limitHistoryTurns ms k = drop c ms"
    using assms(1) by (simp add: limitHistoryTurns_def c_def)
  ultimately show ?thesis using f by blast
qed

lemma limitHistoryTurns_suffix:
  "\<exists>c. limitHistoryTurns ms k = drop c ms \<and> (ms \<noteq> [] \<longrightarrow> c < length ms)"
proof (cases "0 < k \<and> k < int (userCount ms)")
  case True
  with limitHistoryTurns_cut [of k ms] show ?thesis by blast
next
  case False
  then have "limitHistoryTurns ms k = ms"
    using limitHistoryTurns_disabled [of k ms] limitHistoryTurns_small [of ms k] by linarith
  then have "limitHistoryTurns ms k = drop 0 ms \<and> (ms \<noteq> [] \<longrightarrow> 0 < length ms)" by simp
  then show ?thesis by blast
qed

lemma limitHistoryTurns_userCount:
  "0 < k \<Longrightarrow> int (userCount (limitHistoryTurns ms k)) \<le> k"
proof (cases "k < int (userCount ms)")
  case True
  assume "0 < k"
  with limitHistoryTurns_cut [of k ms] True show ?thesis by auto
next
  case False
  then show ?thesis using limitHistoryTurns_small [of ms k] by simp
qed

section \<open>Layers 2 and 3\<close>

subsection \<open>Layer 2\<close>

lemma role_truncateMessage [simp]: "role (truncateMessage cap m) = role m"
  by (simp add: truncateMessage_def split: Content.splits)

lemma truncateMessage_Assistant: "role m \<noteq> User \<Longrightarrow> truncateMessage cap m = m"
  by (simp add: truncateMessage_def)

lemma blockToolUseIds_truncateBlock [simp]:
  "blockToolUseIds (truncateBlock cap b) = blockToolUseIds b"
  by (cases b) simp_all

lemma messageToolUseIds_truncateMessage [simp]:
  "messageToolUseIds (truncateMessage cap m) = messageToolUseIds m"
  by (simp add: messageToolUseIds_def truncateMessage_def split: Content.splits)

lemma userCount_truncateToolResults [simp]:
  "userCount (truncateToolResults ms cap) = userCount ms"
  by (induction ms) (simp_all add: userCount_def truncateToolResults_def)

lemma toolUseIds_truncateToolResults [simp]:
  "toolUseIds (truncateToolResults ms cap) = toolUseIds ms"
  by (simp add: toolUseIds_def truncateToolResults_def comp_def)

subsection \<open>Cleanup\<close>

lemma cleanMessage_role: "cleanMessage ids m = Some m' \<Longrightarrow> role m' = role m"
  by (auto simp: cleanMessage_def Let_def split: if_splits Content.splits)

lemma cleanMessage_Assistant: "role m \<noteq> User \<Longrightarrow> cleanMessage ids m = Some m"
  by (simp add: cleanMessage_def)

lemma cleanMessage_ids:
  "cleanMessage ids m = Some m' \<Longrightarrow> messageToolUseIds m' = messageToolUseIds m"
  by (auto simp: cleanMessage_def messageToolUseIds_def Let_def split: if_splits Content.splits)

lemma cleanMessage_None_ids: "cleanMessage ids m = None \<Longrightarrow> messageToolUseIds m = []"
  by (auto simp: cleanMessage_def messageToolUseIds_def Let_def split: if_splits Content.splits)

lemma map_filter_Cons:
  "List.map_filter f (x # xs) = (case f x of None \<Rightarrow> List.map_filter f xs
                                 | Some y \<Rightarrow> y # List.map_filter f xs)"
  by (simp add: List.map_filter_def split: option.splits)

lemma map_filter_Nil [simp]: "List.map_filter f [] = []"
  by (simp add: List.map_filter_def)

lemma map_filter_append: "List.map_filter f (xs @ ys) = List.map_filter f xs @ List.map_filter f ys"
  by (simp add: List.map_filter_def)

lemma ids_map_filter_clean:
  "concat (map messageToolUseIds (List.map_filter (cleanMessage ids) ms))
   = concat (map messageToolUseIds ms)"
  by (induction ms)
     (auto simp: map_filter_Cons cleanMessage_ids cleanMessage_None_ids split: option.splits)

lemma toolUseIds_removeOrphaned [simp]:
  "toolUseIds (removeOrphanedToolResults ms) = toolUseIds ms"
  by (simp add: toolUseIds_def removeOrphanedToolResults_def ids_map_filter_clean)

lemma userCount_map_filter_clean:
  "userCount (List.map_filter (cleanMessage ids) ms) \<le> userCount ms"
proof (induction ms)
  case Nil
  show ?case by simp
next
  case (Cons m ms)
  show ?case
  proof (cases "cleanMessage ids m")
    case None
    then show ?thesis using Cons by (simp add: map_filter_Cons userCount_def)
  next
    case (Some m')
    then have "role m' = role m" by (rule cleanMessage_role)
    then show ?thesis using Cons Some by (simp add: map_filter_Cons userCount_def)
  qed
qed

lemma userCount_removeOrphaned:
  "userCount (removeOrphanedToolResults ms) \<le> userCount ms"
  by (simp add: removeOrphanedToolResults_def userCount_map_filter_clean)

lemma set_map_filter: "set (List.map_filter f xs) = {y. \<exists>x\<in>set xs. f x = Some y}"
  by (induction xs) (auto simp: map_filter_Cons split: option.splits)

lemma cleanMessage_user_blocks:
  assumes "cleanMessage ids m = Some m'" "role m' = User" "content m' = Blocks bs"
  shows "bs \<noteq> [] \<and> (\<exists>bs0. content m = Blocks bs0 \<and> bs = filter (keepBlock ids) bs0)"
  using assms
  by (auto simp: cleanMessage_def Let_def split: if_splits Content.splits)

lemma removeOrphaned_user_blocks:
  assumes "m \<in> set (removeOrphanedToolResults ms)" "role m = User" "content m = Blocks bs"
  shows "bs \<noteq> [] \<and> (\<forall>t c. ToolResultBlock t c \<in> set bs \<longrightarrow> t \<in> toolUseIds ms)"
proof -
  from assms(1) obtain m0 where m0: "cleanMessage (toolUseIds ms) m0 = Some m"
    by (auto simp: removeOrphanedToolResults_def set_map_filter)
  from cleanMessage_user_blocks [OF m0 assms(2,3)] obtain bs0 where
    b: "bs \<noteq> []" "bs = filter (keepBlock (toolUseIds ms)) bs0" by blast
  have "t \<in> toolUseIds ms" if "ToolResultBlock t c \<in> set bs" for t c
  proof -
    from that b(2) have "keepBlock (toolUseIds ms) (ToolResultBlock t c :: 'a ContentBlock)" by simp
    then show ?thesis by simp
  qed
  with b(1) show ?thesis by blast
qed

lemma filter_assistant_map_filter_clean:
  "filter (\<lambda>m. role m \<noteq> User) (List.map_filter (cleanMessage ids) ms)
   = filter (\<lambda>m. role m \<noteq> User) ms"
proof (induction ms)
  case Nil
  show ?case by simp
next
  case (Cons m ms)
  show ?case
  proof (cases "role m = User")
    case True
    show ?thesis
    proof (cases "cleanMessage ids m")
      case None
      then show ?thesis using Cons True by (simp add: map_filter_Cons)
    next
      case (Some m')
      then have "role m' = User" using cleanMessage_role [OF Some] True by simp
      then show ?thesis using Cons True Some by (simp add: map_filter_Cons)
    qed
  next
    case False
    then show ?thesis using Cons by (simp add: map_filter_Cons cleanMessage_Assistant)
  qed
qed

lemma filter_assistant_truncate:
  "filter (\<lambda>m. role m \<noteq> User) (truncateToolResults ms cap) = filter (\<lambda>m. role m \<noteq> User) ms"
  by (induction ms) (simp_all add: truncateToolResults_def truncateMessage_Assistant)

lemma prepareContext_unfold:
  "prepareContext ms cfg =
     removeOrphanedToolResults
       (truncateToolResults (limitHistoryTurns ms (maxHistoryTurns cfg))
          (min (maxToolResultChars cfg) HARD_MAX_TOOL_RESULT_CHARS))"
  by (simp add: prepareContext_def Let_def)

lemmas prepare_eval =
  prepareContext_def limitHistoryTurns_def truncateToolResults_def truncateMessage_def
  removeOrphanedToolResults_def cleanMessage_def toolUseIds_def messageToolUseIds_def
  List.map_filter_def Let_def HARD_MAX_TOOL_RESULT_CHARS_def


section \<open>The history-window law\<close>

text \<open>
  Claim C5. With a positive history limit \<open>k\<close> and at least \<open>k\<close> user messages in the
  transcript, layer 1 keeps a suffix of the transcript that holds exactly \<open>k\<close> user
  messages, the prepared context is computed from that suffix alone, and it holds at most
  \<open>k\<close> user messages: no user message older than the \<open>k\<close> most recent is retained. The
  five-message transcript with limit 2 prepares to its last four messages, and a
  non-positive limit makes layer 1 return the list unchanged.
\<close>

theorem C5_history_window:
  "(0 < maxHistoryTurns cfg \<and> maxHistoryTurns cfg \<le> int (userCount (ms :: 'j Message list)) \<longrightarrow>
      (\<exists>c. limitHistoryTurns ms (maxHistoryTurns cfg) = drop c ms
          \<and> int (userCount (drop c ms)) = maxHistoryTurns cfg
          \<and> prepareContext ms cfg =
              removeOrphanedToolResults
                (truncateToolResults (drop c ms)
                   (min (maxToolResultChars cfg) HARD_MAX_TOOL_RESULT_CHARS))
          \<and> int (userCount (prepareContext ms cfg)) \<le> maxHistoryTurns cfg))
   \<and> prepareContext
        [\<lparr>role = User, content = (Str ''Turn1'' :: 'j Content)\<rparr>, \<lparr>role = Assistant, content = Str ''Resp1''\<rparr>,
         \<lparr>role = User, content = Str ''Turn2''\<rparr>, \<lparr>role = Assistant, content = Str ''Resp2''\<rparr>,
         \<lparr>role = User, content = Str ''Turn3''\<rparr>]
        (cfg\<lparr>maxHistoryTurns := 2\<rparr>)
      = [\<lparr>role = Assistant, content = Str ''Resp1''\<rparr>,
         \<lparr>role = User, content = Str ''Turn2''\<rparr>, \<lparr>role = Assistant, content = Str ''Resp2''\<rparr>,
         \<lparr>role = User, content = Str ''Turn3''\<rparr>]
   \<and> (maxHistoryTurns cfg \<le> 0 \<longrightarrow> limitHistoryTurns ms (maxHistoryTurns cfg) = ms)"
proof (intro conjI impI)
  assume a: "0 < maxHistoryTurns cfg \<and> maxHistoryTurns cfg \<le> int (userCount ms)"
  define k where "k = maxHistoryTurns cfg"
  have "\<exists>c. limitHistoryTurns ms k = drop c ms \<and> int (userCount (drop c ms)) = k"
  proof (cases "k < int (userCount ms)")
    case True
    with limitHistoryTurns_cut [of k ms] a show ?thesis unfolding k_def by blast
  next
    case False
    then have "int (userCount ms) = k" using a by (simp add: k_def)
    moreover from this have "limitHistoryTurns ms k = drop 0 ms"
      by (simp add: limitHistoryTurns_small)
    ultimately show ?thesis by (metis drop0)
  qed
  then obtain c where c: "limitHistoryTurns ms k = drop c ms" "int (userCount (drop c ms)) = k"
    by blast
  have p: "prepareContext ms cfg =
              removeOrphanedToolResults
                (truncateToolResults (drop c ms)
                   (min (maxToolResultChars cfg) HARD_MAX_TOOL_RESULT_CHARS))"
    using c(1) by (simp add: prepareContext_unfold k_def)
  have "userCount (prepareContext ms cfg) \<le> userCount (drop c ms)"
    unfolding p using userCount_removeOrphaned
      [of "truncateToolResults (drop c ms) (min (maxToolResultChars cfg) HARD_MAX_TOOL_RESULT_CHARS)"]
    by simp
  then have "int (userCount (prepareContext ms cfg)) \<le> k" using c(2) by linarith
  with c p show "\<exists>c. limitHistoryTurns ms (maxHistoryTurns cfg) = drop c ms
          \<and> int (userCount (drop c ms)) = maxHistoryTurns cfg
          \<and> prepareContext ms cfg =
              removeOrphanedToolResults
                (truncateToolResults (drop c ms)
                   (min (maxToolResultChars cfg) HARD_MAX_TOOL_RESULT_CHARS))
          \<and> int (userCount (prepareContext ms cfg)) \<le> maxHistoryTurns cfg"
    unfolding k_def by blast
next
  show "prepareContext
        [\<lparr>role = User, content = Str ''Turn1''\<rparr>, \<lparr>role = Assistant, content = Str ''Resp1''\<rparr>,
         \<lparr>role = User, content = Str ''Turn2''\<rparr>, \<lparr>role = Assistant, content = Str ''Resp2''\<rparr>,
         \<lparr>role = User, content = Str ''Turn3''\<rparr>]
        (cfg\<lparr>maxHistoryTurns := 2\<rparr>)
      = [\<lparr>role = Assistant, content = Str ''Resp1''\<rparr>,
         \<lparr>role = User, content = Str ''Turn2''\<rparr>, \<lparr>role = Assistant, content = Str ''Resp2''\<rparr>,
         \<lparr>role = User, content = Str ''Turn3''\<rparr>]"
    by (simp add: prepare_eval)
next
  assume "maxHistoryTurns cfg \<le> 0"
  then show "limitHistoryTurns ms (maxHistoryTurns cfg) = ms"
    by (rule limitHistoryTurns_disabled)
qed

theorem C5_history_window_witness:
  "(0 < maxHistoryTurns \<lparr>maxHistoryTurns = 1, maxToolResultChars = 100000\<rparr>
    \<and> maxHistoryTurns \<lparr>maxHistoryTurns = 1, maxToolResultChars = 100000\<rparr>
        \<le> int (userCount [\<lparr>role = User, content = Str ''Old''\<rparr>,
                            \<lparr>role = Assistant, content = (Str ''Old reply'' :: unit Content)\<rparr>,
                            \<lparr>role = User, content = Str ''Recent''\<rparr>]))
   \<and> int (userCount (prepareContext
             [\<lparr>role = User, content = Str ''Old''\<rparr>,
              \<lparr>role = Assistant, content = (Str ''Old reply'' :: unit Content)\<rparr>,
              \<lparr>role = User, content = Str ''Recent''\<rparr>]
             \<lparr>maxHistoryTurns = 1, maxToolResultChars = 100000\<rparr>)) \<le> 1
   \<and> maxHistoryTurns \<lparr>maxHistoryTurns = 0, maxToolResultChars = 100000\<rparr> \<le> 0
   \<and> limitHistoryTurns [\<lparr>role = User, content = (Str ''Old'' :: unit Content)\<rparr>] 0
       = [\<lparr>role = User, content = Str ''Old''\<rparr>]"
proof -
  let ?ms = "[\<lparr>role = User, content = Str ''Old''\<rparr>,
              \<lparr>role = Assistant, content = (Str ''Old reply'' :: unit Content)\<rparr>,
              \<lparr>role = User, content = Str ''Recent''\<rparr>]"
  let ?cfg = "\<lparr>maxHistoryTurns = 1, maxToolResultChars = 100000\<rparr>"
  let ?off = "\<lparr>maxHistoryTurns = 0, maxToolResultChars = 100000\<rparr>"
  have h: "0 < maxHistoryTurns ?cfg \<and> maxHistoryTurns ?cfg \<le> int (userCount ?ms)"
    by (simp add: userCount_def)
  have a: "int (userCount (prepareContext ?ms ?cfg)) \<le> 1"
    using C5_history_window [of ?cfg ?ms] h by auto
  have h0: "maxHistoryTurns ?off \<le> 0" by simp
  have b: "limitHistoryTurns [\<lparr>role = User, content = (Str ''Old'' :: unit Content)\<rparr>] 0
       = [\<lparr>role = User, content = Str ''Old''\<rparr>]"
    using C5_history_window [of ?off "[\<lparr>role = User, content = (Str ''Old'' :: unit Content)\<rparr>]"] h0
    by simp
  from h a h0 b show ?thesis by blast
qed

section \<open>Referential integrity of the bounded context\<close>

text \<open>
  Claim C1, as amended. In the output of \<open>prepareContext\<close>, every user-role message with
  a block list has at least one block, and every tool result among its blocks refers to
  the id of a tool use in an assistant message of that same output. Assistant messages pass
  through the cleanup untouched, whatever their blocks.
\<close>

theorem C1_user_results_resolve:
  "\<forall>m \<in> set (prepareContext ms cfg). role m = User \<longrightarrow>
     (\<forall>bs. content m = Blocks bs \<longrightarrow>
        bs \<noteq> [] \<and> (\<forall>t c. ToolResultBlock t c \<in> set bs \<longrightarrow> t \<in> toolUseIds (prepareContext ms cfg)))"
proof (intro ballI impI allI)
  fix m bs
  assume m: "m \<in> set (prepareContext ms cfg)" "role m = User" "content m = Blocks bs"
  define z where "z = truncateToolResults (limitHistoryTurns ms (maxHistoryTurns cfg))
          (min (maxToolResultChars cfg) HARD_MAX_TOOL_RESULT_CHARS)"
  have p: "prepareContext ms cfg = removeOrphanedToolResults z"
    by (simp add: prepareContext_unfold z_def)
  have "toolUseIds (prepareContext ms cfg) = toolUseIds z" by (simp add: p)
  with removeOrphaned_user_blocks [of m z bs] m p
  show "bs \<noteq> [] \<and> (\<forall>t c. ToolResultBlock t c \<in> set bs \<longrightarrow> t \<in> toolUseIds (prepareContext ms cfg))"
    by simp
qed

text \<open>
  The claim as stated fails on assistant messages: one with an empty block list is kept as
  it is, and so is one that carries a tool result whose id no tool use of the output has.
\<close>

theorem C1_integrity_counterexample:
  "\<lparr>role = Assistant, content = Blocks []\<rparr>
     \<in> set (prepareContext [\<lparr>role = Assistant, content = Blocks ([] :: unit ContentBlock list)\<rparr>]
              \<lparr>maxHistoryTurns = 50, maxToolResultChars = 100000\<rparr>)
   \<and> \<lparr>role = Assistant, content = Blocks [ToolResultBlock ''gone'' ''r'']\<rparr>
     \<in> set (prepareContext
              [\<lparr>role = Assistant, content = Blocks [ToolResultBlock ''gone'' ''r'' :: unit ContentBlock]\<rparr>]
              \<lparr>maxHistoryTurns = 50, maxToolResultChars = 100000\<rparr>)
   \<and> ''gone'' \<notin> toolUseIds (prepareContext
              [\<lparr>role = Assistant, content = Blocks [ToolResultBlock ''gone'' ''r'' :: unit ContentBlock]\<rparr>]
              \<lparr>maxHistoryTurns = 50, maxToolResultChars = 100000\<rparr>)"
  by (simp add: prepare_eval)

theorem C1_user_results_resolve_witness:
  "\<lparr>role = User, content = Blocks [ToolResultBlock ''tu_1'' ''valid'']\<rparr>
     \<in> set (prepareContext
          [\<lparr>role = Assistant, content = Blocks [ToolUseBlock ''tu_1'' ''bash'' ()]\<rparr>,
           \<lparr>role = User, content = Blocks [ToolResultBlock ''tu_1'' ''valid'',
                                           ToolResultBlock ''orphan'' ''orphaned'']\<rparr>]
          \<lparr>maxHistoryTurns = 50, maxToolResultChars = 100000\<rparr>)
   \<and> ''tu_1'' \<in> toolUseIds (prepareContext
          [\<lparr>role = Assistant, content = Blocks [ToolUseBlock ''tu_1'' ''bash'' ()]\<rparr>,
           \<lparr>role = User, content = Blocks [ToolResultBlock ''tu_1'' ''valid'',
                                           ToolResultBlock ''orphan'' ''orphaned'']\<rparr>]
          \<lparr>maxHistoryTurns = 50, maxToolResultChars = 100000\<rparr>)"
proof -
  let ?ms = "[\<lparr>role = Assistant, content = Blocks [ToolUseBlock ''tu_1'' ''bash'' ()]\<rparr>,
           \<lparr>role = User, content = Blocks [ToolResultBlock ''tu_1'' ''valid'',
                                           ToolResultBlock ''orphan'' ''orphaned'']\<rparr>]"
  let ?cfg = "\<lparr>maxHistoryTurns = 50, maxToolResultChars = 100000\<rparr>"
  let ?m = "\<lparr>role = User, content = Blocks [ToolResultBlock ''tu_1'' ''valid'' :: unit ContentBlock]\<rparr>"
  have mem: "?m \<in> set (prepareContext ?ms ?cfg)"
    by (simp add: prepare_eval)
  from C1_user_results_resolve [of ?ms ?cfg] mem
  have "\<forall>t c. ToolResultBlock t c \<in> set [ToolResultBlock ''tu_1'' ''valid'' :: unit ContentBlock]
          \<longrightarrow> t \<in> toolUseIds (prepareContext ?ms ?cfg)"
    by fastforce
  then have "''tu_1'' \<in> toolUseIds (prepareContext ?ms ?cfg)" by simp
  with mem show ?thesis by simp
qed

section \<open>Idempotence of context preparation\<close>

lemma truncateBlock_settled:
  assumes "2100 \<le> cap" "blockSized b"
  shows "blockSettled cap (truncateBlock cap b)"
  using assms by (cases b) (simp_all add: truncateText_fits)

lemma truncateBlock_fixed: "blockSettled cap b \<Longrightarrow> truncateBlock cap b = b"
  by (cases b) simp_all

lemma truncateMessage_settled:
  assumes "2100 \<le> cap" "messageSized m"
  shows "messageSettled cap (truncateMessage cap m)"
proof (cases "content m")
  case (Str s)
  then show ?thesis by (simp add: messageSettled_def truncateMessage_def)
next
  case (Blocks bs)
  have all: "list_all (blockSettled cap) (map (truncateBlock cap) bs)"
    using assms Blocks by (auto simp: messageSized_def list_all_iff truncateBlock_settled)
  have none: "list_all (blockSettled cap) bs" if "\<not> list_ex isToolResult bs"
  proof -
    have "blockSettled cap b" if "b \<in> set bs" for b
      using \<open>\<not> list_ex isToolResult bs\<close> that by (cases b) (auto simp: list_ex_iff)
    then show ?thesis by (simp add: list_all_iff)
  qed
  show ?thesis using Blocks all none
    by (simp add: messageSettled_def truncateMessage_def)
qed

lemma truncateMessage_fixed:
  assumes "messageSettled cap m"
  shows "truncateMessage cap m = m"
proof (cases "content m")
  case (Str s)
  then show ?thesis by (simp add: truncateMessage_def)
next
  case (Blocks bs)
  show ?thesis
  proof (cases "role m = User")
    case True
    with assms Blocks have "list_all (blockSettled cap) bs" by (simp add: messageSettled_def)
    then have "map (truncateBlock cap) bs = bs"
      by (simp add: list_all_iff truncateBlock_fixed map_idI)
    then have "m\<lparr>content := Blocks (map (truncateBlock cap) bs)\<rparr> = m"
      using Blocks by simp
    then show ?thesis using Blocks by (simp add: truncateMessage_def)
  next
    case False
    then show ?thesis by (simp add: truncateMessage_def)
  qed
qed

lemma cleanMessage_settled:
  assumes "cleanMessage ids m = Some m'" "messageSettled cap m"
  shows "messageSettled cap m'"
  using assms
  by (auto simp: cleanMessage_def messageSettled_def Let_def list_all_iff
           split: if_splits Content.splits)

lemma cleanMessage_fixed:
  assumes "cleanMessage ids m = Some m'"
  shows "cleanMessage ids m' = Some m'"
  using assms
  by (auto simp: cleanMessage_def Let_def split: if_splits Content.splits)

lemma map_filter_fixed:
  assumes "\<And>x y. f x = Some y \<Longrightarrow> f y = Some y"
  shows "List.map_filter f (List.map_filter f xs) = List.map_filter f xs"
  by (induction xs) (auto simp: map_filter_Cons assms split: option.splits)

lemma removeOrphaned_idem:
  "removeOrphanedToolResults (removeOrphanedToolResults ms) = removeOrphanedToolResults ms"
proof -
  have "removeOrphanedToolResults (removeOrphanedToolResults ms)
        = List.map_filter (cleanMessage (toolUseIds ms)) (removeOrphanedToolResults ms)"
    by (subst removeOrphanedToolResults_def) simp
  also have "\<dots> = removeOrphanedToolResults ms"
    unfolding removeOrphanedToolResults_def
    by (rule map_filter_fixed) (rule cleanMessage_fixed)
  finally show ?thesis .
qed

lemma truncate_settled_list:
  assumes "list_all (messageSettled cap) ms"
  shows "truncateToolResults ms cap = ms"
  using assms by (simp add: truncateToolResults_def list_all_iff truncateMessage_fixed map_idI)

lemma removeOrphaned_settled:
  assumes "list_all (messageSettled cap) ms"
  shows "list_all (messageSettled cap) (removeOrphanedToolResults ms)"
  using assms
  by (auto simp: removeOrphanedToolResults_def list_all_iff set_map_filter
           intro: cleanMessage_settled)

lemma wellSized_drop: "wellSized ms \<Longrightarrow> wellSized (drop c ms)"
  by (auto simp: wellSized_def list_all_iff dest: in_set_dropD)

lemma truncate_makes_settled:
  assumes "2100 \<le> cap" "wellSized ms"
  shows "list_all (messageSettled cap) (truncateToolResults ms cap)"
  using assms
  by (auto simp: truncateToolResults_def wellSized_def list_all_iff truncateMessage_settled)

lemma lastIndexFrom_unfold:
  "0 < k \<Longrightarrow> lastIndexFrom s c k = (if s ! k = c then int k else lastIndexFrom s c (k - 1))"
  by (cases k) simp_all

lemma first_pass:
  "truncateText (replicate 5000 CHR ''a'') 1000
   = replicate 2000 CHR ''a'' @ [newline, newline]
       @ ''[Truncated: showing first 2000 of 5000 characters]''"
  by (simp add: truncateText_def MIN_KEEP_CHARS_def Let_def lastIndexOf_absent newline_def
        slice0_def truncMarker_def showInt_def showNat.simps)

lemma second_pass:
  "truncateText (replicate 2000 CHR ''a'' @ [newline, newline]
       @ ''[Truncated: showing first 2000 of 5000 characters]'') 1000
   = replicate 2000 CHR ''a'' @ [newline, newline]
       @ ''[Truncated: showing first 2000 of 2052 characters]''"
  by (simp add: truncateText_def MIN_KEEP_CHARS_def Let_def lastIndexOf_def lastIndexFrom_unfold
        nth_append slice0_def truncMarker_def showInt_def showNat.simps)

text \<open>
  Claim C4, as amended. For every config whose tool-result cap is at least 2100 and every
  message list whose tool results are within the language's maximum string length,
  applying \<open>prepareContext\<close> to its own output returns that output unchanged.
\<close>

theorem C4_prepareContext_idempotent:
  assumes cap: "2100 \<le> maxToolResultChars cfg" and sized: "wellSized ms"
  shows "prepareContext (prepareContext ms cfg) cfg = prepareContext ms cfg"
proof -
  define k where "k = maxHistoryTurns cfg"
  define cap' where "cap' = min (maxToolResultChars cfg) HARD_MAX_TOOL_RESULT_CHARS"
  define x where "x = limitHistoryTurns ms k"
  define z where "z = truncateToolResults x cap'"
  have p: "prepareContext ms cfg = removeOrphanedToolResults z"
    by (simp add: prepareContext_unfold z_def x_def k_def cap'_def)
  have c1: "2100 \<le> cap'"
    using cap by (simp add: cap'_def HARD_MAX_TOOL_RESULT_CHARS_def)
  have "wellSized x"
    using limitHistoryTurns_suffix [of ms k] wellSized_drop [OF sized] by (auto simp: x_def)
  then have zs: "list_all (messageSettled cap') z"
    unfolding z_def by (rule truncate_makes_settled [OF c1])
  have l: "limitHistoryTurns (removeOrphanedToolResults z) k = removeOrphanedToolResults z"
  proof (cases "0 < k")
    case True
    have "userCount (removeOrphanedToolResults z) \<le> userCount x"
      using userCount_removeOrphaned [of z] by (simp add: z_def)
    moreover have "int (userCount x) \<le> k"
      unfolding x_def using True by (rule limitHistoryTurns_userCount)
    ultimately have "int (userCount (removeOrphanedToolResults z)) \<le> k" by linarith
    then show ?thesis by (rule limitHistoryTurns_small)
  next
    case False
    then show ?thesis by (simp add: limitHistoryTurns_disabled)
  qed
  have t: "truncateToolResults (removeOrphanedToolResults z) cap' = removeOrphanedToolResults z"
    by (rule truncate_settled_list) (rule removeOrphaned_settled [OF zs])
  have "prepareContext (removeOrphanedToolResults z) cfg = removeOrphanedToolResults z"
    using l t by (simp add: prepareContext_unfold removeOrphaned_idem flip: k_def cap'_def)
  then show ?thesis by (simp add: p)
qed

text \<open>
  The claim as stated fails for a cap below the floor. With cap 1000 a tool result of 5000
  characters is cut to 2000 characters plus the marker, 2052 characters in all; that is
  still above the cap, so a second pass cuts it again and writes a different marker.
\<close>

theorem C4_idempotence_counterexample:
  "prepareContext
     (prepareContext
        [\<lparr>role = Assistant, content = Blocks [ToolUseBlock ''tu_1'' ''bash'' ()]\<rparr>,
         \<lparr>role = User, content = Blocks [ToolResultBlock ''tu_1'' (replicate 5000 CHR ''a'')]\<rparr>]
        \<lparr>maxHistoryTurns = 50, maxToolResultChars = 1000\<rparr>)
     \<lparr>maxHistoryTurns = 50, maxToolResultChars = 1000\<rparr>
   \<noteq> prepareContext
        [\<lparr>role = Assistant, content = Blocks [ToolUseBlock ''tu_1'' ''bash'' ()]\<rparr>,
         \<lparr>role = User, content = Blocks [ToolResultBlock ''tu_1'' (replicate 5000 CHR ''a'')]\<rparr>]
        \<lparr>maxHistoryTurns = 50, maxToolResultChars = 1000\<rparr>"
proof -
  let ?cfg = "\<lparr>maxHistoryTurns = 50, maxToolResultChars = 1000\<rparr>"
  let ?use = "\<lparr>role = Assistant, content = Blocks [ToolUseBlock ''tu_1'' ''bash'' ()]\<rparr>"
  let ?t1 = "replicate 2000 CHR ''a'' @ [newline, newline]
       @ ''[Truncated: showing first 2000 of 5000 characters]''"
  let ?t2 = "replicate 2000 CHR ''a'' @ [newline, newline]
       @ ''[Truncated: showing first 2000 of 2052 characters]''"
  have one: "prepareContext
        [?use, \<lparr>role = User, content = Blocks [ToolResultBlock ''tu_1'' (replicate 5000 CHR ''a'')]\<rparr>]
        ?cfg = [?use, \<lparr>role = User, content = Blocks [ToolResultBlock ''tu_1'' ?t1]\<rparr>]"
    by (simp add: prepare_eval first_pass)
  have two: "prepareContext [?use, \<lparr>role = User, content = Blocks [ToolResultBlock ''tu_1'' ?t1]\<rparr>]
        ?cfg = [?use, \<lparr>role = User, content = Blocks [ToolResultBlock ''tu_1'' ?t2]\<rparr>]"
    by (simp add: prepare_eval second_pass del: append.simps)
  have "?t1 \<noteq> ?t2" by simp
  then show ?thesis unfolding one two by simp
qed

theorem C4_prepareContext_idempotent_witness:
  "2100 \<le> maxToolResultChars \<lparr>maxHistoryTurns = 50, maxToolResultChars = 10000\<rparr>
   \<and> wellSized [\<lparr>role = Assistant, content = Blocks [ToolUseBlock ''tu_1'' ''bash'' ()]\<rparr>,
         \<lparr>role = User, content = Blocks [ToolResultBlock ''tu_1'' (replicate 200000 CHR ''x'')]\<rparr>]
   \<and> prepareContext
     (prepareContext
        [\<lparr>role = Assistant, content = Blocks [ToolUseBlock ''tu_1'' ''bash'' ()]\<rparr>,
         \<lparr>role = User, content = Blocks [ToolResultBlock ''tu_1'' (replicate 200000 CHR ''x'')]\<rparr>]
        \<lparr>maxHistoryTurns = 50, maxToolResultChars = 10000\<rparr>)
     \<lparr>maxHistoryTurns = 50, maxToolResultChars = 10000\<rparr>
   = prepareContext
        [\<lparr>role = Assistant, content = Blocks [ToolUseBlock ''tu_1'' ''bash'' ()]\<rparr>,
         \<lparr>role = User, content = Blocks [ToolResultBlock ''tu_1'' (replicate 200000 CHR ''x'')]\<rparr>]
        \<lparr>maxHistoryTurns = 50, maxToolResultChars = 10000\<rparr>"
proof -
  let ?cfg = "\<lparr>maxHistoryTurns = 50, maxToolResultChars = 10000\<rparr>"
  let ?ms = "[\<lparr>role = Assistant, content = Blocks [ToolUseBlock ''tu_1'' ''bash'' ()]\<rparr>,
         \<lparr>role = User, content = Blocks [ToolResultBlock ''tu_1'' (replicate 200000 CHR ''x'')]\<rparr>]"
  have cap: "2100 \<le> maxToolResultChars ?cfg" by simp
  have sized: "wellSized ?ms"
    by (simp add: wellSized_def messageSized_def maxStringLength_def)
  from C4_prepareContext_idempotent [OF cap sized] cap sized show ?thesis by blast
qed


section \<open>The agent loop, round by round\<close>

lemma executeTool_total: "\<exists>s. executeTool nm input tools = Inr s"
  by (simp add: executeTool_def split: option.splits sum.splits)

lemma executeTool_outcome: "executeTool n inp tools = Inr (toolOutcome tools (i, n, inp))"
  using executeTool_total [of n inp tools] by (auto simp: toolOutcome_def)

lemma dispatchTools_all:
  "dispatchTools tools uses rs out =
     (None, rs @ map (toolResultOf tools) uses, out @ concat (map (toolEventsOf tools) uses))"
proof (induction uses arbitrary: rs out)
  case Nil
  show ?case by simp
next
  case (Cons u uses)
  obtain i n inp where u: "u = (i, n, inp)" by (cases u) auto
  show ?case
    unfolding u
    by (simp add: executeTool_outcome [of n inp tools i] Cons.IH toolResultOf_def toolEventsOf_def)
qed

lemma consume_fold:
  "foldl consumeEvent acc evs =
     acc\<lparr>currentText := currentText acc @ roundText evs,
         toolUses := toolUses acc @ roundToolUses evs,
         stopReason := stopReason (foldl consumeEvent acc evs),
         yielded := yielded acc @ textEvents evs\<rparr>"
proof (induction evs arbitrary: acc)
  case Nil
  show ?case by (simp add: roundText_def roundToolUses_def textEvents_def)
next
  case (Cons e evs)
  show ?case
    by (subst foldl_Cons, subst Cons.IH, cases e)
       (simp_all add: roundText_def roundToolUses_def textEvents_def)
qed

lemma consume_text: "currentText (foldl consumeEvent acc evs) = currentText acc @ roundText evs"
  by (subst consume_fold) simp

lemma consume_uses: "toolUses (foldl consumeEvent acc evs) = toolUses acc @ roundToolUses evs"
  by (subst consume_fold) simp

lemma consume_yielded: "yielded (foldl consumeEvent acc evs) = yielded acc @ textEvents evs"
  by (subst consume_fold) simp

lemma messages_appendMessage [simp]:
  "messages (fst (appendMessage rt sw m)) = messages (fst sw) @ [m]"
  by (simp add: appendMessage_def Let_def)

lemma agentRound_threw_state:
  assumes "client (clientState st) (requestFor tools config system (messages (session st)))
           = (evs, Some e, cs')"
  shows "agentRound rt client tools config system st
         = Threw e (st\<lparr>clientState := cs', events := events st @ textEvents evs\<rparr>)"
  using assms by (simp add: agentRound_def requestFor_def Let_def consume_yielded)

lemma agentRound_done_state:
  assumes "client (clientState st) (requestFor tools config system (messages (session st)))
           = (evs, None, cs')"
    and "roundToolUses evs = []"
  shows "agentRound rt client tools config system st
         = Done (st\<lparr>clientState := cs', events := events st @ textEvents evs,
                    session := fst (appendMessage rt (session st, world st)
                       \<lparr>role = Assistant, content = assistantContent (roundBlocks evs)\<rparr>),
                    world := snd (appendMessage rt (session st, world st)
                       \<lparr>role = Assistant, content = assistantContent (roundBlocks evs)\<rparr>)\<rparr>)"
  using assms
  by (simp add: agentRound_def requestFor_def Let_def consume_uses consume_text consume_yielded
        buildContentBlocks_def roundBlocks_def)

lemma agentRound_continue_state:
  assumes "client (clientState st) (requestFor tools config system (messages (session st)))
           = (evs, None, cs')"
    and "roundToolUses evs \<noteq> []"
  shows "agentRound rt client tools config system st
         = Continue (st\<lparr>clientState := cs',
                        events := events st @ textEvents evs
                                  @ concat (map (toolEventsOf tools) (roundToolUses evs)),
                    session := fst (appendMessage rt
                       (appendMessage rt (session st, world st)
                          \<lparr>role = Assistant, content = assistantContent (roundBlocks evs)\<rparr>)
                       \<lparr>role = User,
                        content = Blocks (map (toolResultOf tools) (roundToolUses evs))\<rparr>),
                    world := snd (appendMessage rt
                       (appendMessage rt (session st, world st)
                          \<lparr>role = Assistant, content = assistantContent (roundBlocks evs)\<rparr>)
                       \<lparr>role = User,
                        content = Blocks (map (toolResultOf tools) (roundToolUses evs))\<rparr>)\<rparr>)"
  using assms
  by (simp add: agentRound_def requestFor_def Let_def consume_uses consume_text consume_yielded
        buildContentBlocks_def roundBlocks_def dispatchTools_all)

lemma agentRound_done:
  assumes "client (clientState st) (requestFor tools config system (messages (session st)))
           = (evs, None, cs')"
    and "roundToolUses evs = []"
  shows "\<exists>st'. agentRound rt client tools config system st = Done st'
           \<and> messages (session st') =
               messages (session st) @ [\<lparr>role = Assistant, content = assistantContent (roundBlocks evs)\<rparr>]
           \<and> events st' = events st @ textEvents evs
           \<and> clientState st' = cs'"
  using agentRound_done_state [where client = client and st = st, OF assms] by simp

lemma agentRound_continue:
  assumes "client (clientState st) (requestFor tools config system (messages (session st)))
           = (evs, None, cs')"
    and "roundToolUses evs \<noteq> []"
  shows "\<exists>st'. agentRound rt client tools config system st = Continue st'
           \<and> messages (session st') =
               messages (session st)
               @ [\<lparr>role = Assistant, content = assistantContent (roundBlocks evs)\<rparr>,
                  \<lparr>role = User, content = Blocks (map (toolResultOf tools) (roundToolUses evs))\<rparr>]
           \<and> events st' = events st @ textEvents evs
                             @ concat (map (toolEventsOf tools) (roundToolUses evs))
           \<and> clientState st' = cs'"
  using agentRound_continue_state [where client = client and st = st, OF assms] by simp

lemma textEvents_empty_roundText: "textEvents evs = [] \<Longrightarrow> roundText evs = []"
proof (induction evs)
  case Nil
  show ?case by (simp add: roundText_def)
next
  case (Cons e evs)
  then show ?case by (cases e) (simp_all add: roundText_def textEvents_def)
qed

lemma agentLoop_done:
  "agentRound rt client tools config system st = Done st'
   \<Longrightarrow> agentLoop rt client tools config system st = Some (None, st')"
  by (subst agentLoop.simps) simp

lemma agentLoop_continue:
  "agentRound rt client tools config system st = Continue st'
   \<Longrightarrow> agentLoop rt client tools config system st = agentLoop rt client tools config system st'"
  by (subst agentLoop.simps) simp

lemma agentLoop_threw:
  "agentRound rt client tools config system st = Threw e st'
   \<Longrightarrow> agentLoop rt client tools config system st = Some (Some e, st')"
  by (subst agentLoop.simps) simp

lemma retag_roundText [simp]: "roundText (map (retagStop f) evs) = roundText evs"
proof (induction evs)
  case Nil
  show ?case by (simp add: roundText_def)
next
  case (Cons e evs)
  then show ?case by (cases e) (simp_all add: roundText_def)
qed

lemma retag_roundToolUses [simp]: "roundToolUses (map (retagStop f) evs) = roundToolUses evs"
proof (induction evs)
  case Nil
  show ?case by (simp add: roundToolUses_def)
next
  case (Cons e evs)
  then show ?case by (cases e) (simp_all add: roundToolUses_def)
qed

lemma retag_textEvents [simp]: "textEvents (map (retagStop f) evs) = textEvents evs"
proof (induction evs)
  case Nil
  show ?case by (simp add: textEvents_def)
next
  case (Cons e evs)
  then show ?case by (cases e) (simp_all add: textEvents_def)
qed

lemma retag_roundBlocks [simp]: "roundBlocks (map (retagStop f) evs) = roundBlocks evs"
  by (simp add: roundBlocks_def)

lemma agentRound_mapStops:
  "agentRound rt (mapStops f client) tools config system st
   = agentRound rt client tools config system st"
proof -
  let ?req = "requestFor tools config system (messages (session st))"
  obtain evs fault cs' where r: "client (clientState st) ?req = (evs, fault, cs')"
    by (cases "client (clientState st) ?req") auto
  then have r': "mapStops f client (clientState st) ?req = (map (retagStop f) evs, fault, cs')"
    by (simp add: mapStops_def)
  show ?thesis
  proof (cases fault)
    case (Some e)
    show ?thesis
      using agentRound_threw_state [where client = client and st = st, OF r [unfolded Some], of rt]
        agentRound_threw_state [where client = "mapStops f client" and st = st, OF r' [unfolded Some], of rt] by simp
  next
    case None
    show ?thesis
    proof (cases "roundToolUses evs = []")
      case True
      then have t: "roundToolUses (map (retagStop f) evs) = []" by simp
      show ?thesis
        using agentRound_done_state [where client = client and st = st, OF r [unfolded None] True, of rt]
          agentRound_done_state [where client = "mapStops f client" and st = st, OF r' [unfolded None] t, of rt] by simp
    next
      case False
      then have t: "roundToolUses (map (retagStop f) evs) \<noteq> []" by simp
      show ?thesis
        using agentRound_continue_state [where client = client and st = st, OF r [unfolded None] False, of rt]
          agentRound_continue_state [where client = "mapStops f client" and st = st, OF r' [unfolded None] t, of rt] by simp
    qed
  qed
qed

lemma agentLoop_transfer:
  assumes eq: "\<And>s. agentRound rt c1 tools config system s = agentRound rt c2 tools config system s"
    and run: "agentLoop rt c1 tools config system st = Some r"
  shows "agentLoop rt c2 tools config system st = Some r"
proof -
  let ?P = "\<lambda>rt' c tools' config' system' s y.
              rt' = rt \<longrightarrow> c = c1 \<longrightarrow> tools' = tools \<longrightarrow> config' = config \<longrightarrow> system' = system
              \<longrightarrow> agentLoop rt c2 tools config system s = Some y"
  have "?P rt c1 tools config system st r"
  proof (rule agentLoop.raw_induct [where P = ?P, OF _ run])
    fix loop rt' c tools' config' system' s y
    assume ih: "\<And>rt' c tools' config' system' s y.
                  loop rt' c tools' config' system' s = Some y
                  \<Longrightarrow> ?P rt' c tools' config' system' s y"
      and step: "(case agentRound rt' c tools' config' system' s of
                    Done st' \<Rightarrow> Some (None, st')
                  | Continue st' \<Rightarrow> loop rt' c tools' config' system' st'
                  | Threw e st' \<Rightarrow> Some (Some e, st')) = Some y"
    show "?P rt' c tools' config' system' s y"
    proof (intro impI)
      assume p: "rt' = rt" "c = c1" "tools' = tools" "config' = config" "system' = system"
      show "agentLoop rt c2 tools config system s = Some y"
      proof (cases "agentRound rt c1 tools config system s")
        case (Done st')
        then have "y = (None, st')" using step p by simp
        moreover have "agentRound rt c2 tools config system s = Done st'"
          using Done eq by simp
        ultimately show ?thesis by (simp add: agentLoop_done)
      next
        case (Continue st')
        then have "loop rt c1 tools config system st' = Some y" using step p by simp
        then have "agentLoop rt c2 tools config system st' = Some y"
          using ih by blast
        moreover have "agentRound rt c2 tools config system s = Continue st'"
          using Continue eq by simp
        ultimately show ?thesis by (simp add: agentLoop_continue)
      next
        case (Threw e st')
        then have "y = (Some e, st')" using step p by simp
        moreover have "agentRound rt c2 tools config system s = Threw e st'"
          using Threw eq by simp
        ultimately show ?thesis by (simp add: agentLoop_threw)
      qed
    qed
  qed
  then show ?thesis by simp
qed

lemma agentLoop_mapStops:
  "agentLoop rt (mapStops f client) tools config system st
   = agentLoop rt client tools config system st"
proof (cases "agentLoop rt client tools config system st")
  case (Some r)
  then have "agentLoop rt (mapStops f client) tools config system st = Some r"
    using agentLoop_transfer [of rt client tools config system "mapStops f client" st r]
    by (simp add: agentRound_mapStops)
  with Some show ?thesis by simp
next
  case None
  show ?thesis
  proof (cases "agentLoop rt (mapStops f client) tools config system st")
    case None2: None
    with None show ?thesis by simp
  next
    case (Some r)
    then have "agentLoop rt client tools config system st = Some r"
      using agentLoop_transfer [of rt "mapStops f client" tools config system client st r]
      by (simp add: agentRound_mapStops)
    with None show ?thesis by simp
  qed
qed

lemma last_survives:
  assumes "ms \<noteq> []" "role (last ms) \<noteq> User"
  shows "last ms \<in> set (prepareContext ms cfg)"
proof -
  from limitHistoryTurns_suffix [of ms "maxHistoryTurns cfg"] assms(1) obtain c where
    c: "limitHistoryTurns ms (maxHistoryTurns cfg) = drop c ms" "c < length ms" by blast
  let ?cap = "min (maxToolResultChars cfg) HARD_MAX_TOOL_RESULT_CHARS"
  have "last ms \<in> set (drop c ms)" using c(2) by (metis drop_eq_Nil last_drop last_in_set not_le)
  then have "truncateMessage ?cap (last ms) \<in> set (truncateToolResults (drop c ms) ?cap)"
    by (simp add: truncateToolResults_def)
  then have "last ms \<in> set (truncateToolResults (drop c ms) ?cap)"
    using assms(2) by (simp add: truncateMessage_Assistant)
  moreover have "cleanMessage ids (last ms) = Some (last ms)" for ids
    using assms(2) by (rule cleanMessage_Assistant)
  ultimately have "last ms \<in> set (removeOrphanedToolResults (truncateToolResults (drop c ms) ?cap))"
    by (auto simp: removeOrphanedToolResults_def set_map_filter)
  then show ?thesis by (simp add: prepareContext_unfold c(1))
qed


lemma freshTurn_simps [simp]:
  "messages (session (freshTurn rt sid)) = []"
  "clientState (freshTurn rt sid) = 0"
  "events (freshTurn rt sid) = []"
  by (simp_all add: freshTurn_def createSession_def Let_def)


section \<open>Tool dispatch, case by case\<close>

lemma executeTool_unknown:
  "find (\<lambda>t. tool_name (defn t) = nm) tools = None \<Longrightarrow>
   executeTool nm input tools = Inr (''Error: Unknown tool '' @ [CHR 0x22] @ nm @ [CHR 0x22])"
  by (simp add: executeTool_def)

lemma executeTool_returns:
  "find (\<lambda>t. tool_name (defn t) = nm) tools = Some tool \<Longrightarrow> execute tool input = Inr r \<Longrightarrow>
   executeTool nm input tools = Inr r"
  by (simp add: executeTool_def)

lemma executeTool_error:
  "find (\<lambda>t. tool_name (defn t) = nm) tools = Some tool \<Longrightarrow>
   execute tool input = Inl (ErrorObject m) \<Longrightarrow>
   executeTool nm input tools
   = Inr (''Error executing tool '' @ [CHR 0x22] @ nm @ [CHR 0x22] @ '': '' @ m)"
  by (simp add: executeTool_def thrownMessage_def)

lemma executeTool_nonerror:
  "find (\<lambda>t. tool_name (defn t) = nm) tools = Some tool \<Longrightarrow>
   execute tool input = Inl (NonError s) \<Longrightarrow>
   executeTool nm input tools
   = Inr (''Error executing tool '' @ [CHR 0x22] @ nm @ [CHR 0x22] @ '': '' @ s)"
  by (simp add: executeTool_def thrownMessage_def)

lemma toolOutcome_eq: "executeTool n inp tools = Inr r \<Longrightarrow> toolOutcome tools (i, n, inp) = r"
  by (simp add: toolOutcome_def)

lemma zip_outcomes:
  "map (\<lambda>(u, r). f u r) (zip uses (map g uses)) = map (\<lambda>u. f u (g u)) uses"
  by (induction uses) simp_all

lemma dispatch_explicit:
  "\<exists>rs. length rs = length uses
     \<and> (\<forall>k < length uses.
           executeTool (fst (snd (uses ! k))) (snd (snd (uses ! k))) tools = Inr (rs ! k))
     \<and> dispatchTools tools uses acc out
        = (None,
           acc @ map (\<lambda>(u, r). ToolResultBlock (fst u) r) (zip uses rs),
           out @ concat (map (\<lambda>(u, r). [ToolStart (fst (snd u)) (snd (snd u)),
                                          ToolEnd (fst (snd u)) r])
                             (zip uses rs)))"
proof -
  let ?rs = "map (toolOutcome tools) uses"
  have a: "\<forall>k < length uses.
           executeTool (fst (snd (uses ! k))) (snd (snd (uses ! k))) tools = Inr (?rs ! k)"
  proof (intro allI impI)
    fix k assume "k < length uses"
    then have "?rs ! k = toolOutcome tools (uses ! k)" by simp
    moreover have "executeTool (fst (snd (uses ! k))) (snd (snd (uses ! k))) tools
                   = Inr (toolOutcome tools (uses ! k))"
      using executeTool_outcome [of "fst (snd (uses ! k))" "snd (snd (uses ! k))" tools
          "fst (uses ! k)"] by simp
    ultimately show "executeTool (fst (snd (uses ! k))) (snd (snd (uses ! k))) tools
                     = Inr (?rs ! k)" by simp
  qed
  have b: "map (\<lambda>(u, r). ToolResultBlock (fst u) r) (zip uses ?rs) = map (toolResultOf tools) uses"
    by (simp add: zip_outcomes toolResultOf_def)
  have c: "map (\<lambda>(u, r). [ToolStart (fst (snd u)) (snd (snd u)), ToolEnd (fst (snd u)) r])
               (zip uses ?rs) = map (toolEventsOf tools) uses"
    by (simp add: zip_outcomes toolEventsOf_def)
  have "dispatchTools tools uses acc out
        = (None,
           acc @ map (\<lambda>(u, r). ToolResultBlock (fst u) r) (zip uses ?rs),
           out @ concat (map (\<lambda>(u, r). [ToolStart (fst (snd u)) (snd (snd u)),
                                          ToolEnd (fst (snd u)) r])
                             (zip uses ?rs)))"
    unfolding b c by (rule dispatchTools_all)
  with a show ?thesis by (intro exI [of _ ?rs]) simp
qed

lemma round_one_tool:
  assumes resp: "client (clientState st) (requestFor tools config system (messages (session st)))
           = (evs, None, cs')"
    and one: "roundToolUses evs = [(i, n, inp)]"
    and res: "executeTool n inp tools = Inr r"
  shows "\<exists>st'. agentRound rt client tools config system st = Continue st'
           \<and> agentLoop rt client tools config system st
               = agentLoop rt client tools config system st'
           \<and> messages (session st') =
               messages (session st)
               @ [\<lparr>role = Assistant, content = assistantContent (roundBlocks evs)\<rparr>,
                  \<lparr>role = User, content = Blocks [ToolResultBlock i r]\<rparr>]
           \<and> events st' = events st @ textEvents evs @ [ToolStart n inp, ToolEnd n r]
           \<and> clientState st' = cs'"
proof -
  have ne: "roundToolUses evs \<noteq> []" using one by simp
  have out: "toolOutcome tools (i, n, inp) = r" using res by (rule toolOutcome_eq)
  from agentRound_continue [where client = client and st = st, OF resp ne, of rt]
  obtain st' where st': "agentRound rt client tools config system st = Continue st'"
    "messages (session st') =
               messages (session st)
               @ [\<lparr>role = Assistant, content = assistantContent (roundBlocks evs)\<rparr>,
                  \<lparr>role = User, content = Blocks [ToolResultBlock i r]\<rparr>]"
    "events st' = events st @ textEvents evs @ [ToolStart n inp, ToolEnd n r]"
    "clientState st' = cs'"
    by (auto simp: one toolResultOf_def toolEventsOf_def out)
  with agentLoop_continue [OF st'(1)] show ?thesis by blast
qed

section \<open>A turn with one tool call\<close>



section \<open>Tool dispatch\<close>

text \<open>
  Claim C7. \<open>executeTool\<close> always returns a string and never raises. For a name that is
  not in the catalog the string is \<open>Error: Unknown tool\<close> followed by the name in double
  quotes; for an executor that throws an \<open>Error\<close> with message \<open>m\<close>, or any other value
  whose string form is \<open>m\<close>, it is \<open>Error executing tool\<close>, the name in double quotes, a
  colon, a space and \<open>m\<close>; otherwise it is the executor's result. The dispatch
  loop finishes without an exception, with one tool result and one
  \<open>tool_start\<close>/\<open>tool_end\<close> pair per call, in request order, each carrying the string
  that \<open>executeTool\<close> returned for that call. A round whose stream did not fail and asked
  for at least one tool therefore appends the assistant message and one user message
  holding those tool results, and the loop goes on with the next round from that state;
  in particular, when the one tool asked for throws, or is unknown, the error string is
  the content of the tool result appended to the session and of the \<open>tool_end\<close> event.
\<close>

theorem C7_tool_dispatch_never_raises:
  "(\<exists>s. executeTool nm input tools = Inr s)
   \<and> (find (\<lambda>t. tool_name (defn t) = nm) tools = None \<longrightarrow>
        executeTool nm input tools = Inr (''Error: Unknown tool '' @ [CHR 0x22] @ nm @ [CHR 0x22]))
   \<and> (\<forall>tool m. find (\<lambda>t. tool_name (defn t) = nm) tools = Some tool
          \<and> execute tool input = Inl (ErrorObject m) \<longrightarrow>
        executeTool nm input tools
          = Inr (''Error executing tool '' @ [CHR 0x22] @ nm @ [CHR 0x22] @ '': '' @ m))
   \<and> (\<forall>tool s. find (\<lambda>t. tool_name (defn t) = nm) tools = Some tool
          \<and> execute tool input = Inl (NonError s) \<longrightarrow>
        executeTool nm input tools
          = Inr (''Error executing tool '' @ [CHR 0x22] @ nm @ [CHR 0x22] @ '': '' @ s))
   \<and> (\<forall>tool r. find (\<lambda>t. tool_name (defn t) = nm) tools = Some tool
          \<and> execute tool input = Inr r \<longrightarrow> executeTool nm input tools = Inr r)
   \<and> (\<exists>rs. length rs = length uses
         \<and> (\<forall>k < length uses.
               executeTool (fst (snd (uses ! k))) (snd (snd (uses ! k))) tools = Inr (rs ! k))
         \<and> dispatchTools tools uses acc out
            = (None,
               acc @ map (\<lambda>(u, r). ToolResultBlock (fst u) r) (zip uses rs),
               out @ concat (map (\<lambda>(u, r). [ToolStart (fst (snd u)) (snd (snd u)),
                                              ToolEnd (fst (snd u)) r])
                                 (zip uses rs))))
   \<and> (client (clientState st) (requestFor tools config system (messages (session st)))
         = (evs, None, cs')
       \<and> roundToolUses evs \<noteq> [] \<longrightarrow>
        (\<exists>st' rs. agentRound rt client tools config system st = Continue st'
           \<and> agentLoop rt client tools config system st
               = agentLoop rt client tools config system st'
           \<and> length rs = length (roundToolUses evs)
           \<and> (\<forall>k < length (roundToolUses evs).
                 executeTool (fst (snd (roundToolUses evs ! k)))
                   (snd (snd (roundToolUses evs ! k))) tools = Inr (rs ! k))
           \<and> messages (session st')
               = messages (session st)
                 @ [\<lparr>role = Assistant, content = assistantContent (roundBlocks evs)\<rparr>,
                    \<lparr>role = User,
                     content = Blocks (map (\<lambda>(u, r). ToolResultBlock (fst u) r)
                                           (zip (roundToolUses evs) rs))\<rparr>]
           \<and> events st'
               = events st @ textEvents evs
                 @ concat (map (\<lambda>(u, r). [ToolStart (fst (snd u)) (snd (snd u)),
                                            ToolEnd (fst (snd u)) r])
                               (zip (roundToolUses evs) rs))))
   \<and> (client (clientState st) (requestFor tools config system (messages (session st)))
         = (evs, None, cs')
       \<and> roundToolUses evs = [(i, n, inp)]
       \<and> find (\<lambda>t. tool_name (defn t) = n) tools = Some failing
       \<and> execute failing inp = Inl (ErrorObject msg) \<longrightarrow>
        (\<exists>st'. agentRound rt client tools config system st = Continue st'
           \<and> agentLoop rt client tools config system st
               = agentLoop rt client tools config system st'
           \<and> messages (session st')
               = messages (session st)
                 @ [\<lparr>role = Assistant, content = assistantContent (roundBlocks evs)\<rparr>,
                    \<lparr>role = User,
                     content = Blocks [ToolResultBlock i
                        (''Error executing tool '' @ [CHR 0x22] @ n @ [CHR 0x22] @ '': '' @ msg)]\<rparr>]
           \<and> events st'
               = events st @ textEvents evs
                 @ [ToolStart n inp,
                    ToolEnd n (''Error executing tool '' @ [CHR 0x22] @ n @ [CHR 0x22] @ '': ''
                               @ msg)]))
   \<and> (client (clientState st) (requestFor tools config system (messages (session st)))
         = (evs, None, cs')
       \<and> roundToolUses evs = [(i, n, inp)]
       \<and> find (\<lambda>t. tool_name (defn t) = n) tools = None \<longrightarrow>
        (\<exists>st'. agentRound rt client tools config system st = Continue st'
           \<and> agentLoop rt client tools config system st
               = agentLoop rt client tools config system st'
           \<and> messages (session st')
               = messages (session st)
                 @ [\<lparr>role = Assistant, content = assistantContent (roundBlocks evs)\<rparr>,
                    \<lparr>role = User,
                     content = Blocks [ToolResultBlock i
                        (''Error: Unknown tool '' @ [CHR 0x22] @ n @ [CHR 0x22])]\<rparr>]
           \<and> events st'
               = events st @ textEvents evs
                 @ [ToolStart n inp,
                    ToolEnd n (''Error: Unknown tool '' @ [CHR 0x22] @ n @ [CHR 0x22])]))"
proof (intro conjI impI allI)
  show "\<exists>s. executeTool nm input tools = Inr s" by (rule executeTool_total)
next
  assume "find (\<lambda>t. tool_name (defn t) = nm) tools = None"
  then show "executeTool nm input tools = Inr (''Error: Unknown tool '' @ [CHR 0x22] @ nm @ [CHR 0x22])"
    by (rule executeTool_unknown)
next
  fix tool m
  assume "find (\<lambda>t. tool_name (defn t) = nm) tools = Some tool
          \<and> execute tool input = Inl (ErrorObject m)"
  then show "executeTool nm input tools
          = Inr (''Error executing tool '' @ [CHR 0x22] @ nm @ [CHR 0x22] @ '': '' @ m)"
    by (simp add: executeTool_error)
next
  fix tool s
  assume "find (\<lambda>t. tool_name (defn t) = nm) tools = Some tool
          \<and> execute tool input = Inl (NonError s)"
  then show "executeTool nm input tools
          = Inr (''Error executing tool '' @ [CHR 0x22] @ nm @ [CHR 0x22] @ '': '' @ s)"
    by (simp add: executeTool_nonerror)
next
  fix tool r
  assume "find (\<lambda>t. tool_name (defn t) = nm) tools = Some tool \<and> execute tool input = Inr r"
  then show "executeTool nm input tools = Inr r" by (simp add: executeTool_returns)
next
  show "\<exists>rs. length rs = length uses
         \<and> (\<forall>k < length uses.
               executeTool (fst (snd (uses ! k))) (snd (snd (uses ! k))) tools = Inr (rs ! k))
         \<and> dispatchTools tools uses acc out
            = (None,
               acc @ map (\<lambda>(u, r). ToolResultBlock (fst u) r) (zip uses rs),
               out @ concat (map (\<lambda>(u, r). [ToolStart (fst (snd u)) (snd (snd u)),
                                              ToolEnd (fst (snd u)) r])
                                 (zip uses rs)))"
    by (rule dispatch_explicit)
next
  assume a: "client (clientState st) (requestFor tools config system (messages (session st)))
         = (evs, None, cs')
       \<and> roundToolUses evs \<noteq> []"
  let ?uses = "roundToolUses evs"
  let ?rs = "map (toolOutcome tools) ?uses"
  from agentRound_continue [where client = client and st = st, OF conjunct1 [OF a] conjunct2 [OF a], of rt]
  obtain st' where st': "agentRound rt client tools config system st = Continue st'"
    "messages (session st') =
               messages (session st)
               @ [\<lparr>role = Assistant, content = assistantContent (roundBlocks evs)\<rparr>,
                  \<lparr>role = User, content = Blocks (map (toolResultOf tools) ?uses)\<rparr>]"
    "events st' = events st @ textEvents evs @ concat (map (toolEventsOf tools) ?uses)"
    by blast
  have ex: "\<forall>k < length ?uses.
           executeTool (fst (snd (?uses ! k))) (snd (snd (?uses ! k))) tools = Inr (?rs ! k)"
  proof (intro allI impI)
    fix k assume "k < length ?uses"
    then have "?rs ! k = toolOutcome tools (?uses ! k)" by simp
    moreover have "executeTool (fst (snd (?uses ! k))) (snd (snd (?uses ! k))) tools
                   = Inr (toolOutcome tools (?uses ! k))"
      using executeTool_outcome [of "fst (snd (?uses ! k))" "snd (snd (?uses ! k))" tools
          "fst (?uses ! k)"] by simp
    ultimately show "executeTool (fst (snd (?uses ! k))) (snd (snd (?uses ! k))) tools
                     = Inr (?rs ! k)" by simp
  qed
  have b: "map (\<lambda>(u, r). ToolResultBlock (fst u) r) (zip ?uses ?rs) = map (toolResultOf tools) ?uses"
    by (simp add: zip_outcomes toolResultOf_def)
  have c: "map (\<lambda>(u, r). [ToolStart (fst (snd u)) (snd (snd u)), ToolEnd (fst (snd u)) r])
               (zip ?uses ?rs) = map (toolEventsOf tools) ?uses"
    by (simp add: zip_outcomes toolEventsOf_def)
  show "\<exists>st' rs. agentRound rt client tools config system st = Continue st'
           \<and> agentLoop rt client tools config system st
               = agentLoop rt client tools config system st'
           \<and> length rs = length (roundToolUses evs)
           \<and> (\<forall>k < length (roundToolUses evs).
                 executeTool (fst (snd (roundToolUses evs ! k)))
                   (snd (snd (roundToolUses evs ! k))) tools = Inr (rs ! k))
           \<and> messages (session st')
               = messages (session st)
                 @ [\<lparr>role = Assistant, content = assistantContent (roundBlocks evs)\<rparr>,
                    \<lparr>role = User,
                     content = Blocks (map (\<lambda>(u, r). ToolResultBlock (fst u) r)
                                           (zip (roundToolUses evs) rs))\<rparr>]
           \<and> events st'
               = events st @ textEvents evs
                 @ concat (map (\<lambda>(u, r). [ToolStart (fst (snd u)) (snd (snd u)),
                                            ToolEnd (fst (snd u)) r])
                               (zip (roundToolUses evs) rs))"
    apply (rule exI [of _ st'])
    apply (rule exI [of _ ?rs])
    unfolding b c
    using st' ex agentLoop_continue [OF st'(1)] by simp
next
  assume a: "client (clientState st) (requestFor tools config system (messages (session st)))
         = (evs, None, cs')
       \<and> roundToolUses evs = [(i, n, inp)]
       \<and> find (\<lambda>t. tool_name (defn t) = n) tools = Some failing
       \<and> execute failing inp = Inl (ErrorObject msg)"
  then have res: "executeTool n inp tools
     = Inr (''Error executing tool '' @ [CHR 0x22] @ n @ [CHR 0x22] @ '': '' @ msg)"
    by (simp add: executeTool_error)
  from round_one_tool [where client = client and st = st, OF conjunct1 [OF a] _ res, of i rt] a
  show "\<exists>st'. agentRound rt client tools config system st = Continue st'
           \<and> agentLoop rt client tools config system st
               = agentLoop rt client tools config system st'
           \<and> messages (session st')
               = messages (session st)
                 @ [\<lparr>role = Assistant, content = assistantContent (roundBlocks evs)\<rparr>,
                    \<lparr>role = User,
                     content = Blocks [ToolResultBlock i
                        (''Error executing tool '' @ [CHR 0x22] @ n @ [CHR 0x22] @ '': '' @ msg)]\<rparr>]
           \<and> events st'
               = events st @ textEvents evs
                 @ [ToolStart n inp,
                    ToolEnd n (''Error executing tool '' @ [CHR 0x22] @ n @ [CHR 0x22] @ '': ''
                               @ msg)]"
    by auto
next
  assume a: "client (clientState st) (requestFor tools config system (messages (session st)))
         = (evs, None, cs')
       \<and> roundToolUses evs = [(i, n, inp)]
       \<and> find (\<lambda>t. tool_name (defn t) = n) tools = None"
  then have res: "executeTool n inp tools
     = Inr (''Error: Unknown tool '' @ [CHR 0x22] @ n @ [CHR 0x22])"
    by (simp add: executeTool_unknown)
  from round_one_tool [where client = client and st = st, OF conjunct1 [OF a] _ res, of i rt] a
  show "\<exists>st'. agentRound rt client tools config system st = Continue st'
           \<and> agentLoop rt client tools config system st
               = agentLoop rt client tools config system st'
           \<and> messages (session st')
               = messages (session st)
                 @ [\<lparr>role = Assistant, content = assistantContent (roundBlocks evs)\<rparr>,
                    \<lparr>role = User,
                     content = Blocks [ToolResultBlock i
                        (''Error: Unknown tool '' @ [CHR 0x22] @ n @ [CHR 0x22])]\<rparr>]
           \<and> events st'
               = events st @ textEvents evs
                 @ [ToolStart n inp,
                    ToolEnd n (''Error: Unknown tool '' @ [CHR 0x22] @ n @ [CHR 0x22])]"
    by auto
qed

theorem C7_tool_dispatch_never_raises_witness:
  "executeTool ''nonexistent'' () []
     = Inr (''Error: Unknown tool '' @ [CHR 0x22] @ ''nonexistent'' @ [CHR 0x22])
   \<and> executeTool ''fail'' () [failTool ()]
     = Inr (''Error executing tool '' @ [CHR 0x22] @ ''fail'' @ [CHR 0x22] @ '': Something broke'')
   \<and> (\<exists>st'. agentRound (tableRuntime []) (mockLLMClient
               [\<lparr>mr_text = None, mr_toolUses = Some [(''tu1'', ''fail'', ())], mr_stop_reason = None\<rparr>])
            [failTool ()] testConfig [] (freshTurn (tableRuntime []) ''test'') = Continue st'
        \<and> messages (session st')
            = [\<lparr>role = Assistant, content = Blocks [ToolUseBlock ''tu1'' ''fail'' ()]\<rparr>,
               \<lparr>role = User,
                content = Blocks [ToolResultBlock ''tu1''
                   (''Error executing tool '' @ [CHR 0x22] @ ''fail'' @ [CHR 0x22]
                    @ '': Something broke'')]\<rparr>]
        \<and> events st'
            = [ToolStart ''fail'' (),
               ToolEnd ''fail'' (''Error executing tool '' @ [CHR 0x22] @ ''fail'' @ [CHR 0x22]
                                @ '': Something broke'')])
   \<and> (\<exists>st'. agentRound (tableRuntime []) (mockLLMClient
               [\<lparr>mr_text = None, mr_toolUses = Some [(''tu1'', ''nonexistent'', ())],
                 mr_stop_reason = None\<rparr>])
            [] testConfig [] (freshTurn (tableRuntime []) ''test'') = Continue st'
        \<and> messages (session st')
            = [\<lparr>role = Assistant, content = Blocks [ToolUseBlock ''tu1'' ''nonexistent'' ()]\<rparr>,
               \<lparr>role = User,
                content = Blocks [ToolResultBlock ''tu1''
                   (''Error: Unknown tool '' @ [CHR 0x22] @ ''nonexistent'' @ [CHR 0x22])]\<rparr>])"
proof -
  let ?rt = "tableRuntime [] :: unit Runtime"
  let ?st = "freshTurn ?rt ''test''"
  let ?client = "mockLLMClient
               [\<lparr>mr_text = None, mr_toolUses = Some [(''tu1'', ''fail'', ())], mr_stop_reason = None\<rparr>]"
  let ?client2 = "mockLLMClient
               [\<lparr>mr_text = None, mr_toolUses = Some [(''tu1'', ''nonexistent'', ())],
                 mr_stop_reason = None\<rparr>]"
  let ?evs = "[ToolUse ''tu1'' ''fail'' (), MessageStop ''tool_use'']"
  let ?evs2 = "[ToolUse ''tu1'' ''nonexistent'' (), MessageStop ''tool_use'']"
  have a: "find (\<lambda>t. tool_name (defn t) = ''nonexistent'') ([] :: unit Tool list) = None"
    by simp
  have b: "find (\<lambda>t. tool_name (defn t) = ''fail'') [failTool ()] = Some (failTool ())
           \<and> execute (failTool ()) () = Inl (ErrorObject ''Something broke'')"
    by (simp add: failTool_def)
  have c: "?client (clientState ?st)
             (requestFor [failTool ()] testConfig [] (messages (session ?st))) = (?evs, None, 1)
           \<and> roundToolUses ?evs = [(''tu1'', ''fail'', ())]"
    by (simp add: mockLLMClient_def freshTurn_simps roundToolUses_def)
  have d: "?client2 (clientState ?st)
             (requestFor [] testConfig [] (messages (session ?st))) = (?evs2, None, 1)
           \<and> roundToolUses ?evs2 = [(''tu1'', ''nonexistent'', ())]"
    by (simp add: mockLLMClient_def freshTurn_simps roundToolUses_def)
  have blocks: "assistantContent (roundBlocks ?evs) = Blocks [ToolUseBlock ''tu1'' ''fail'' ()]"
    "assistantContent (roundBlocks ?evs2) = Blocks [ToolUseBlock ''tu1'' ''nonexistent'' ()]"
    "textEvents ?evs = []" "textEvents ?evs2 = []"
    by (simp_all add: roundBlocks_def roundText_def roundToolUses_def
        textEvents_def)
  note fail = C7_tool_dispatch_never_raises
      [where nm = "''fail''" and input = "()" and tools = "[failTool ()]" and uses = "[]"
         and acc = "[]" and out = "[]" and client = ?client and st = ?st and config = testConfig
         and system = "[]" and rt = ?rt and evs = ?evs and cs' = 1 and i = "''tu1''"
         and n = "''fail''" and inp = "()" and failing = "failTool ()"
         and msg = "''Something broke''"]
  note unknown = C7_tool_dispatch_never_raises
      [where nm = "''nonexistent''" and input = "()" and tools = "[]" and uses = "[]"
         and acc = "[]" and out = "[]" and client = ?client2 and st = ?st
         and config = testConfig and system = "[]" and rt = ?rt and evs = ?evs2 and cs' = 1
         and i = "''tu1''" and n = "''nonexistent''" and inp = "()"
         and failing = "failTool ()" and msg = "[]"]
  have "executeTool ''nonexistent'' () []
     = Inr (''Error: Unknown tool '' @ [CHR 0x22] @ ''nonexistent'' @ [CHR 0x22])"
    using unknown a by blast
  moreover have "executeTool ''fail'' () [failTool ()]
     = Inr (''Error executing tool '' @ [CHR 0x22] @ ''fail'' @ [CHR 0x22] @ '': Something broke'')"
    using fail b by auto
  moreover have "\<exists>st'. agentRound ?rt ?client [failTool ()] testConfig [] ?st = Continue st'
        \<and> messages (session st')
            = [\<lparr>role = Assistant, content = Blocks [ToolUseBlock ''tu1'' ''fail'' ()]\<rparr>,
               \<lparr>role = User,
                content = Blocks [ToolResultBlock ''tu1''
                   (''Error executing tool '' @ [CHR 0x22] @ ''fail'' @ [CHR 0x22]
                    @ '': Something broke'')]\<rparr>]
        \<and> events st'
            = [ToolStart ''fail'' (),
               ToolEnd ''fail'' (''Error executing tool '' @ [CHR 0x22] @ ''fail'' @ [CHR 0x22]
                                @ '': Something broke'')]"
  proof -
    from fail b c
    obtain st' where "agentRound ?rt ?client [failTool ()] testConfig [] ?st = Continue st'"
      "messages (session st')
               = messages (session ?st)
                 @ [\<lparr>role = Assistant, content = assistantContent (roundBlocks ?evs)\<rparr>,
                    \<lparr>role = User,
                     content = Blocks [ToolResultBlock ''tu1''
                        (''Error executing tool '' @ [CHR 0x22] @ ''fail'' @ [CHR 0x22] @ '': ''
                         @ ''Something broke'')]\<rparr>]"
      "events st'
               = events ?st @ textEvents ?evs
                 @ [ToolStart ''fail'' (),
                    ToolEnd ''fail'' (''Error executing tool '' @ [CHR 0x22] @ ''fail''
                       @ [CHR 0x22] @ '': '' @ ''Something broke'')]"
      by blast
    then show ?thesis by (intro exI [of _ st']) (simp add: blocks freshTurn_simps)
  qed
  moreover have "\<exists>st'. agentRound ?rt ?client2 [] testConfig [] ?st = Continue st'
        \<and> messages (session st')
            = [\<lparr>role = Assistant, content = Blocks [ToolUseBlock ''tu1'' ''nonexistent'' ()]\<rparr>,
               \<lparr>role = User,
                content = Blocks [ToolResultBlock ''tu1''
                   (''Error: Unknown tool '' @ [CHR 0x22] @ ''nonexistent'' @ [CHR 0x22])]\<rparr>]"
  proof -
    from unknown a d
    obtain st' where "agentRound ?rt ?client2 [] testConfig [] ?st = Continue st'"
      "messages (session st')
               = messages (session ?st)
                 @ [\<lparr>role = Assistant, content = assistantContent (roundBlocks ?evs2)\<rparr>,
                    \<lparr>role = User,
                     content = Blocks [ToolResultBlock ''tu1''
                        (''Error: Unknown tool '' @ [CHR 0x22] @ ''nonexistent'' @ [CHR 0x22])]\<rparr>]"
      by blast
    then show ?thesis by (intro exI [of _ st']) (simp add: blocks freshTurn_simps)
  qed
  ultimately show ?thesis by blast
qed

section \<open>The stop reason\<close>

text \<open>
  Claim C9. The loop never consults the stop reason: rewriting the stop reasons of every
  stream in any way leaves the whole turn unchanged. In particular a round whose stream ends
  with \<open>end_turn\<close> but holds tool-use events dispatches those tools, appends their
  results and goes on to the next round, and a round whose stream ends with \<open>tool_use\<close>
  but holds no tool-use event ends the turn.
\<close>

theorem C9_stop_reason_never_consulted:
  "agentLoop rt (mapStops f client) tools config system st
     = agentLoop rt client tools config system st
   \<and> (client (clientState st) (requestFor tools config system (messages (session st)))
        = (evs @ [MessageStop ''end_turn''], None, cs')
      \<and> roundToolUses evs \<noteq> [] \<longrightarrow>
        (\<exists>st'. agentRound rt client tools config system st = Continue st'
           \<and> agentLoop rt client tools config system st
               = agentLoop rt client tools config system st'
           \<and> events st' = events st @ textEvents evs
                             @ concat (map (toolEventsOf tools) (roundToolUses evs))
           \<and> last (messages (session st'))
               = \<lparr>role = User, content = Blocks (map (toolResultOf tools) (roundToolUses evs))\<rparr>))
   \<and> (client (clientState st) (requestFor tools config system (messages (session st)))
        = (evs @ [MessageStop ''tool_use''], None, cs')
      \<and> roundToolUses evs = [] \<longrightarrow>
        (\<exists>st'. agentRound rt client tools config system st = Done st'
           \<and> agentLoop rt client tools config system st = Some (None, st')
           \<and> events st' = events st @ textEvents evs))"
proof (intro conjI impI)
  show "agentLoop rt (mapStops f client) tools config system st
     = agentLoop rt client tools config system st"
    by (rule agentLoop_mapStops)
next
  assume a: "client (clientState st) (requestFor tools config system (messages (session st)))
        = (evs @ [MessageStop ''end_turn''], None, cs')
      \<and> roundToolUses evs \<noteq> []"
  have u: "roundToolUses (evs @ [MessageStop ''end_turn'']) = roundToolUses evs"
    and t: "textEvents (evs @ [MessageStop ''end_turn'']) = textEvents evs"
    by (simp_all add: roundToolUses_def textEvents_def)
  from a u have ne: "roundToolUses (evs @ [MessageStop ''end_turn'']) \<noteq> []" by simp
  from agentRound_continue [where client = client and st = st, OF conjunct1 [OF a] ne, of rt]
  obtain st' where st': "agentRound rt client tools config system st = Continue st'"
    "events st' = events st @ textEvents evs
                             @ concat (map (toolEventsOf tools) (roundToolUses evs))"
    "last (messages (session st'))
               = \<lparr>role = User, content = Blocks (map (toolResultOf tools) (roundToolUses evs))\<rparr>"
    by (auto simp: u t)
  with agentLoop_continue [OF st'(1)]
  show "\<exists>st'. agentRound rt client tools config system st = Continue st'
           \<and> agentLoop rt client tools config system st
               = agentLoop rt client tools config system st'
           \<and> events st' = events st @ textEvents evs
                             @ concat (map (toolEventsOf tools) (roundToolUses evs))
           \<and> last (messages (session st'))
               = \<lparr>role = User, content = Blocks (map (toolResultOf tools) (roundToolUses evs))\<rparr>"
    by blast
next
  assume a: "client (clientState st) (requestFor tools config system (messages (session st)))
        = (evs @ [MessageStop ''tool_use''], None, cs')
      \<and> roundToolUses evs = []"
  have u: "roundToolUses (evs @ [MessageStop ''tool_use'']) = roundToolUses evs"
    and t: "textEvents (evs @ [MessageStop ''tool_use'']) = textEvents evs"
    by (simp_all add: roundToolUses_def textEvents_def)
  from a u have e: "roundToolUses (evs @ [MessageStop ''tool_use'']) = []" by simp
  from agentRound_done [where client = client and st = st, OF conjunct1 [OF a] e, of rt]
  obtain st' where st': "agentRound rt client tools config system st = Done st'"
    "events st' = events st @ textEvents evs"
    by (auto simp: t)
  with agentLoop_done [OF st'(1)]
  show "\<exists>st'. agentRound rt client tools config system st = Done st'
           \<and> agentLoop rt client tools config system st = Some (None, st')
           \<and> events st' = events st @ textEvents evs"
    by blast
qed

theorem C9_stop_reason_never_consulted_witness:
  "(\<exists>st'. agentRound (tableRuntime []) (mockLLMClient
               [\<lparr>mr_text = None, mr_toolUses = Some [(''tu1'', ''echo'', ())],
                 mr_stop_reason = Some ''end_turn''\<rparr>])
            [createTestTool ''echo'' (\<lambda>input. ''Echo: hello'') ()] testConfig []
            (freshTurn (tableRuntime []) ''test'') = Continue st'
       \<and> events st' = [ToolStart ''echo'' (), ToolEnd ''echo'' ''Echo: hello''])
   \<and> (\<exists>st'. agentLoop (tableRuntime []) (mockLLMClient
               [\<lparr>mr_text = Some ''Just text.'', mr_toolUses = None,
                 mr_stop_reason = Some ''tool_use''\<rparr>])
            ([] :: unit Tool list) testConfig [] (freshTurn (tableRuntime []) ''test'')
          = Some (None, st')
       \<and> events st' = [Text ''Just text.''])"
proof -
  let ?rt = "tableRuntime [] :: unit Runtime"
  let ?st = "freshTurn ?rt ''test''"
  let ?c1 = "mockLLMClient
               [\<lparr>mr_text = None, mr_toolUses = Some [(''tu1'', ''echo'', ())],
                 mr_stop_reason = Some ''end_turn''\<rparr>]"
  let ?c2 = "mockLLMClient
               [\<lparr>mr_text = Some ''Just text.'', mr_toolUses = (None :: (string \<times> string \<times> unit) list option),
                 mr_stop_reason = Some ''tool_use''\<rparr>]"
  let ?tools = "[createTestTool ''echo'' (\<lambda>input. ''Echo: hello'') ()]"
  have h1: "?c1 (clientState ?st) (requestFor ?tools testConfig [] (messages (session ?st)))
            = ([ToolUse ''tu1'' ''echo'' ()] @ [MessageStop ''end_turn''], None, 1)
          \<and> roundToolUses [ToolUse ''tu1'' ''echo'' ()] \<noteq> []"
    by (simp add: mockLLMClient_def roundToolUses_def)
  have h2: "?c2 (clientState ?st) (requestFor [] testConfig [] (messages (session ?st)))
            = ([Text ''Just text.''] @ [MessageStop ''tool_use''], None, 1)
          \<and> roundToolUses [Text ''Just text.'' :: unit StreamEvent] = []"
    by (simp add: mockLLMClient_def roundToolUses_def)
  have out: "toolOutcome ?tools (''tu1'', ''echo'', ()) = ''Echo: hello''"
    by (simp add: toolOutcome_def executeTool_def createTestTool_def)
  have "\<exists>st'. agentRound ?rt ?c1 ?tools testConfig [] ?st = Continue st'
       \<and> events st' = [ToolStart ''echo'' (), ToolEnd ''echo'' ''Echo: hello'']"
    using C9_stop_reason_never_consulted
      [where client = ?c1 and st = ?st and tools = ?tools and config = testConfig
         and system = "[]" and rt = ?rt and evs = "[ToolUse ''tu1'' ''echo'' ()]" and cs' = 1
         and f = id] h1
    by (auto simp: textEvents_def roundToolUses_def toolEventsOf_def out)
  moreover have "\<exists>st'. agentLoop ?rt ?c2 [] testConfig [] ?st = Some (None, st')
       \<and> events st' = [Text ''Just text.'']"
    using C9_stop_reason_never_consulted
      [where client = ?c2 and st = ?st and tools = "[]" and config = testConfig
         and system = "[]" and rt = ?rt and evs = "[Text ''Just text.'']" and cs' = 1
         and f = id] h2
    by (auto simp: textEvents_def)
  ultimately show ?thesis by blast
qed

section \<open>A round without text and without tool use\<close>

text \<open>
  Claim C10. If a round's stream holds no text event and no tool-use event, the round
  appends an assistant message whose content is the empty block list and ends the turn;
  preparing the context afterwards keeps that message. Orphan cleanup leaves the messages
  that are not user messages exactly as they are.
\<close>

theorem C10_empty_assistant_message:
  "(client (clientState st) (requestFor tools config system (messages (session st)))
      = (evs, None, cs')
    \<and> textEvents evs = [] \<and> roundToolUses evs = [] \<longrightarrow>
      (\<exists>st'. agentRound rt client tools config system st = Done st'
         \<and> agentLoop rt client tools config system st = Some (None, st')
         \<and> messages (session st')
             = messages (session st) @ [\<lparr>role = Assistant, content = Blocks []\<rparr>]
         \<and> \<lparr>role = Assistant, content = Blocks []\<rparr>
             \<in> set (prepareContext (messages (session st')) config)))
   \<and> filter (\<lambda>m. role m \<noteq> User) (removeOrphanedToolResults ms)
       = filter (\<lambda>m. role m \<noteq> User) ms"
proof (intro conjI impI)
  assume a: "client (clientState st) (requestFor tools config system (messages (session st)))
      = (evs, None, cs')
    \<and> textEvents evs = [] \<and> roundToolUses evs = []"
  then have blocks: "roundBlocks evs = []"
    by (simp add: roundBlocks_def textEvents_empty_roundText)
  from a agentRound_done [where client = client and st = st, of tools config system evs cs' rt]
  obtain st' where st': "agentRound rt client tools config system st = Done st'"
    "messages (session st') = messages (session st) @ [\<lparr>role = Assistant, content = Blocks []\<rparr>]"
    by (auto simp: blocks)
  have "last (messages (session st')) = \<lparr>role = Assistant, content = Blocks []\<rparr>"
    by (simp add: st'(2))
  moreover have "messages (session st') \<noteq> []" by (simp add: st'(2))
  ultimately have "\<lparr>role = Assistant, content = Blocks []\<rparr>
             \<in> set (prepareContext (messages (session st')) config)"
    using last_survives [of "messages (session st')" config] by simp
  with st' agentLoop_done [OF st'(1)]
  show "\<exists>st'. agentRound rt client tools config system st = Done st'
         \<and> agentLoop rt client tools config system st = Some (None, st')
         \<and> messages (session st')
             = messages (session st) @ [\<lparr>role = Assistant, content = Blocks []\<rparr>]
         \<and> \<lparr>role = Assistant, content = Blocks []\<rparr>
             \<in> set (prepareContext (messages (session st')) config)"
    by blast
next
  show "filter (\<lambda>m. role m \<noteq> User) (removeOrphanedToolResults ms)
       = filter (\<lambda>m. role m \<noteq> User) ms"
    by (simp add: removeOrphanedToolResults_def filter_assistant_map_filter_clean)
qed

theorem C10_empty_assistant_message_witness:
  "\<exists>st'. agentLoop (tableRuntime []) (mockLLMClient
               [\<lparr>mr_text = None, mr_toolUses = None, mr_stop_reason = None\<rparr>])
            ([] :: unit Tool list) testConfig [] (freshTurn (tableRuntime []) ''test'')
          = Some (None, st')
     \<and> messages (session st') = [\<lparr>role = Assistant, content = Blocks []\<rparr>]
     \<and> \<lparr>role = Assistant, content = Blocks []\<rparr>
          \<in> set (prepareContext (messages (session st')) testConfig)"
proof -
  let ?rt = "tableRuntime [] :: unit Runtime"
  let ?st = "freshTurn ?rt ''test''"
  let ?c = "mockLLMClient
               [\<lparr>mr_text = None, mr_toolUses = (None :: (string \<times> string \<times> unit) list option),
                 mr_stop_reason = None\<rparr>]"
  have h: "?c (clientState ?st) (requestFor [] testConfig [] (messages (session ?st)))
            = ([MessageStop ''end_turn''], None, 1)
          \<and> textEvents [MessageStop ''end_turn'' :: unit StreamEvent] = []
          \<and> roundToolUses [MessageStop ''end_turn'' :: unit StreamEvent] = []"
    by (simp add: mockLLMClient_def roundToolUses_def textEvents_def)
  show ?thesis
    using C10_empty_assistant_message
      [where client = ?c and st = ?st and tools = "[]" and config = testConfig
         and system = "[]" and rt = ?rt and evs = "[MessageStop ''end_turn'']" and cs' = 1
         and ms = "[]"] h
    by auto
qed

section \<open>The terminal event of the adapters\<close>

lemma anthropicDelta_no_stop: "\<forall>e \<in> set (anthropicDeltaEvents ev). \<not> isMessageStop e"
  by (cases ev rule: anthropicDeltaEvents.cases) simp_all

lemma anthropicBlock_no_stop: "\<forall>e \<in> set (anthropicBlockEvents b). \<not> isMessageStop e"
  by (cases b) simp_all

lemma openaiChunk_stopReason:
  "oa_stopReason acc \<in> {''end_turn'', ''tool_use''}
   \<Longrightarrow> oa_stopReason (openaiChunk acc chunk) \<in> {''end_turn'', ''tool_use''}"
  by (simp add: openaiChunk_def Let_def split: option.splits list.splits)

lemma openaiChunk_yielded:
  "\<forall>e \<in> set (oa_yielded acc). \<not> isMessageStop e
   \<Longrightarrow> \<forall>e \<in> set (oa_yielded (openaiChunk acc chunk)). \<not> isMessageStop e"
  by (auto simp: openaiChunk_def Let_def split: option.splits list.splits)

lemma openai_fold_stopReason:
  "oa_stopReason acc \<in> {''end_turn'', ''tool_use''}
   \<Longrightarrow> oa_stopReason (foldl openaiChunk acc chunks) \<in> {''end_turn'', ''tool_use''}"
proof (induction chunks arbitrary: acc)
  case Nil
  then show ?case by simp
next
  case (Cons c cs)
  from Cons.prems have "oa_stopReason (openaiChunk acc c) \<in> {''end_turn'', ''tool_use''}"
    by (rule openaiChunk_stopReason)
  then show ?case using Cons.IH by simp
qed

lemma openai_fold_yielded:
  "\<forall>e \<in> set (oa_yielded acc). \<not> isMessageStop e
   \<Longrightarrow> \<forall>e \<in> set (oa_yielded (foldl openaiChunk acc chunks)). \<not> isMessageStop e"
proof (induction chunks arbitrary: acc)
  case Nil
  then show ?case by simp
next
  case (Cons c cs)
  from Cons.prems have "\<forall>e \<in> set (oa_yielded (openaiChunk acc c)). \<not> isMessageStop e"
    by (rule openaiChunk_yielded)
  then show ?case using Cons.IH by simp
qed

lemma openai_length_keeps_default:
  "OpenAIClient_stream (\<lambda>s. None) ()
              [\<lparr>choices = [\<lparr>delta = Some \<lparr>delta_content = Some ''Hi'', tool_calls = None\<rparr>,
                             finish_reason = Some ''length''\<rparr>]\<rparr>]
   = [Text ''Hi'', MessageStop ''end_turn'']"
  by (simp add: OpenAIClient_stream_def openaiChunk_def Let_def)

lemma openai_last:
  "last (OpenAIClient_stream parseJSON (emptyObject :: 'j) chunks)
   = MessageStop (oa_stopReason (foldl openaiChunk
       \<lparr>oa_toolCalls = [], oa_stopReason = ''end_turn'',
        oa_yielded = ([] :: 'j StreamEvent list)\<rparr> chunks))"
  by (simp add: OpenAIClient_stream_def Let_def)

lemma openaiChunk_no_delta:
  "chunkDelta c = None \<Longrightarrow> openaiChunk acc c = acc"
  by (simp add: openaiChunk_def chunkDelta_def)

lemma openaiChunk_reason:
  "chunkDelta c \<noteq> None \<Longrightarrow>
   oa_stopReason (openaiChunk acc c)
   = (if chunkFinish c = Some ''tool_calls'' then ''tool_use''
      else if chunkFinish c = Some ''stop'' then ''end_turn''
      else oa_stopReason acc)"
  by (auto simp: openaiChunk_def chunkDelta_def chunkFinish_def Let_def
           split: option.splits list.splits)


text \<open>
  Claim C6, as amended. Each adapter's stream ends with a \<open>message_stop\<close> event and holds
  no other. The Anthropic adapter passes the upstream stop reason on as it is, and puts
  \<open>end_turn\<close> only where the upstream gave none. The OpenAI adapter's stop reason is always
  \<open>end_turn\<close> or \<open>tool_use\<close>: it is \<open>end_turn\<close> for an empty stream; a chunk whose
  first choice carries a delta sets it to \<open>tool_use\<close> when its finish reason is
  \<open>tool_calls\<close> and to \<open>end_turn\<close> when its finish reason is \<open>stop\<close>; a chunk with no
  choice or no delta, or with any other finish reason, leaves it as it was.
\<close>

theorem C6_one_terminal_event:
  "(\<exists>pre. AnthropicClient_stream stream finalMessage
            = pre @ [MessageStop (case stop_reason finalMessage of
                                    None \<Rightarrow> ''end_turn'' | Some r \<Rightarrow> r)]
          \<and> filter isMessageStop pre = [])
   \<and> (\<exists>pre r. OpenAIClient_stream parseJSON emptyObject chunks = pre @ [MessageStop r]
          \<and> filter isMessageStop pre = []
          \<and> (r = ''end_turn'' \<or> r = ''tool_use''))
   \<and> last (OpenAIClient_stream parseJSON emptyObject []) = MessageStop ''end_turn''
   \<and> (chunkDelta c \<noteq> None \<and> chunkFinish c = Some ''tool_calls'' \<longrightarrow>
        last (OpenAIClient_stream parseJSON emptyObject (chunks @ [c])) = MessageStop ''tool_use'')
   \<and> (chunkDelta c \<noteq> None \<and> chunkFinish c = Some ''stop'' \<longrightarrow>
        last (OpenAIClient_stream parseJSON emptyObject (chunks @ [c])) = MessageStop ''end_turn'')
   \<and> (chunkDelta c = None
        \<or> (chunkFinish c \<noteq> Some ''tool_calls'' \<and> chunkFinish c \<noteq> Some ''stop'') \<longrightarrow>
        last (OpenAIClient_stream parseJSON emptyObject (chunks @ [c]))
        = last (OpenAIClient_stream parseJSON emptyObject chunks))"
proof (intro conjI impI)
  let ?pre = "concat (map anthropicDeltaEvents stream)
     @ concat (map anthropicBlockEvents (final_content finalMessage))"
  have "filter isMessageStop ?pre = []"
    using anthropicDelta_no_stop anthropicBlock_no_stop
    by (auto simp: filter_empty_conv)
  moreover have "AnthropicClient_stream stream finalMessage
            = ?pre @ [MessageStop (case stop_reason finalMessage of
                                    None \<Rightarrow> ''end_turn'' | Some r \<Rightarrow> r)]"
    by (simp add: AnthropicClient_stream_def)
  ultimately show "\<exists>pre. AnthropicClient_stream stream finalMessage
            = pre @ [MessageStop (case stop_reason finalMessage of
                                    None \<Rightarrow> ''end_turn'' | Some r \<Rightarrow> r)]
          \<and> filter isMessageStop pre = []"
    by blast
next
  define acc where "acc = foldl openaiChunk
      \<lparr>oa_toolCalls = [], oa_stopReason = ''end_turn'', oa_yielded = ([] :: 'b StreamEvent list)\<rparr>
      chunks"
  let ?pre = "oa_yielded acc
         @ map (\<lambda>(k, tc).
                  ToolUse (acc_id tc) (acc_name tc)
                    (case parseJSON (acc_args tc) of None \<Rightarrow> emptyObject | Some v \<Rightarrow> v))
               (oa_toolCalls acc)"
  have r: "oa_stopReason acc = ''end_turn'' \<or> oa_stopReason acc = ''tool_use''"
    using openai_fold_stopReason
      [of "\<lparr>oa_toolCalls = [], oa_stopReason = ''end_turn'', oa_yielded = ([] :: 'b StreamEvent list)\<rparr>"
          chunks]
    by (simp add: acc_def)
  have y: "\<forall>e \<in> set (oa_yielded acc). \<not> isMessageStop e"
    unfolding acc_def by (rule openai_fold_yielded) simp
  have "filter isMessageStop ?pre = []"
    using y by (auto simp: filter_empty_conv)
  moreover have "OpenAIClient_stream parseJSON emptyObject chunks
                 = ?pre @ [MessageStop (oa_stopReason acc)]"
    by (simp add: OpenAIClient_stream_def Let_def acc_def)
  ultimately show "\<exists>pre r. OpenAIClient_stream parseJSON emptyObject chunks = pre @ [MessageStop r]
          \<and> filter isMessageStop pre = []
          \<and> (r = ''end_turn'' \<or> r = ''tool_use'')"
    using r by blast
next
  show "last (OpenAIClient_stream parseJSON emptyObject []) = MessageStop ''end_turn''"
    by (simp add: openai_last)
next
  assume "chunkDelta c \<noteq> None \<and> chunkFinish c = Some ''tool_calls''"
  then show "last (OpenAIClient_stream parseJSON emptyObject (chunks @ [c])) = MessageStop ''tool_use''"
    by (simp add: openai_last openaiChunk_reason)
next
  assume "chunkDelta c \<noteq> None \<and> chunkFinish c = Some ''stop''"
  then show "last (OpenAIClient_stream parseJSON emptyObject (chunks @ [c])) = MessageStop ''end_turn''"
    by (simp add: openai_last openaiChunk_reason)
next
  assume a: "chunkDelta c = None
        \<or> (chunkFinish c \<noteq> Some ''tool_calls'' \<and> chunkFinish c \<noteq> Some ''stop'')"
  show "last (OpenAIClient_stream parseJSON emptyObject (chunks @ [c]))
        = last (OpenAIClient_stream parseJSON emptyObject chunks)"
  proof (cases "chunkDelta c = None")
    case True
    then show ?thesis by (simp add: openai_last openaiChunk_no_delta)
  next
    case False
    with a show ?thesis by (simp add: openai_last openaiChunk_reason)
  qed
qed


text \<open>
  The claim as stated fails for the Anthropic adapter: an upstream response that stopped
  for \<open>max_tokens\<close> ends in a terminal event with that very reason.
\<close>

theorem C6_stop_reason_counterexample:
  "AnthropicClient_stream [] \<lparr>final_content = [], stop_reason = Some ''max_tokens''\<rparr>
     = [MessageStop ''max_tokens'']
   \<and> ''max_tokens'' \<noteq> ''end_turn'' \<and> ''max_tokens'' \<noteq> ''tool_use''"
  by (simp add: AnthropicClient_stream_def)

theorem C6_one_terminal_event_witness:
  "last (OpenAIClient_stream (\<lambda>s. None) ()
           ([] @ [\<lparr>choices = [\<lparr>delta = Some \<lparr>delta_content = None, tool_calls = None\<rparr>,
                                finish_reason = Some ''tool_calls''\<rparr>]\<rparr>]))
     = MessageStop ''tool_use''
   \<and> last (OpenAIClient_stream (\<lambda>s. None) ()
           ([] @ [\<lparr>choices = [\<lparr>delta = Some \<lparr>delta_content = Some ''Hi'', tool_calls = None\<rparr>,
                                finish_reason = Some ''stop''\<rparr>]\<rparr>]))
     = MessageStop ''end_turn''
   \<and> last (OpenAIClient_stream (\<lambda>s. None) ()
           ([\<lparr>choices = [\<lparr>delta = Some \<lparr>delta_content = None, tool_calls = None\<rparr>,
                          finish_reason = Some ''tool_calls''\<rparr>]\<rparr>]
            @ [\<lparr>choices = [\<lparr>delta = Some \<lparr>delta_content = Some ''Hi'', tool_calls = None\<rparr>,
                             finish_reason = Some ''length''\<rparr>]\<rparr>]))
     = MessageStop ''tool_use''
   \<and> last (OpenAIClient_stream (\<lambda>s. None) ()
           ([] @ [\<lparr>choices = [\<lparr>delta = None, finish_reason = Some ''tool_calls''\<rparr>]\<rparr>]))
     = MessageStop ''end_turn''"
proof -
  let ?tc = "\<lparr>choices = [\<lparr>delta = Some \<lparr>delta_content = None, tool_calls = None\<rparr>,
                          finish_reason = Some ''tool_calls''\<rparr>]\<rparr>"
  let ?st = "\<lparr>choices = [\<lparr>delta = Some \<lparr>delta_content = Some ''Hi'', tool_calls = None\<rparr>,
                          finish_reason = Some ''stop''\<rparr>]\<rparr>"
  let ?ln = "\<lparr>choices = [\<lparr>delta = Some \<lparr>delta_content = Some ''Hi'', tool_calls = None\<rparr>,
                          finish_reason = Some ''length''\<rparr>]\<rparr>"
  let ?nd = "\<lparr>choices = [\<lparr>delta = None, finish_reason = Some ''tool_calls''\<rparr>]\<rparr>"
  let ?fm = "\<lparr>final_content = ([] :: unit AnthropicBlock list), stop_reason = None\<rparr>"
  note inst = C6_one_terminal_event
    [where parseJSON = "\<lambda>s. None" and emptyObject = "()" and stream = "[]" and finalMessage = ?fm]
  have h1: "chunkDelta ?tc \<noteq> None \<and> chunkFinish ?tc = Some ''tool_calls''"
    by (simp add: chunkDelta_def chunkFinish_def)
  have h2: "chunkDelta ?st \<noteq> None \<and> chunkFinish ?st = Some ''stop''"
    by (simp add: chunkDelta_def chunkFinish_def)
  have h3: "chunkDelta ?ln = None
        \<or> (chunkFinish ?ln \<noteq> Some ''tool_calls'' \<and> chunkFinish ?ln \<noteq> Some ''stop'')"
    by (simp add: chunkDelta_def chunkFinish_def)
  have h4: "chunkDelta ?nd = None
        \<or> (chunkFinish ?nd \<noteq> Some ''tool_calls'' \<and> chunkFinish ?nd \<noteq> Some ''stop'')"
    by (simp add: chunkDelta_def chunkFinish_def)
  have a: "last (OpenAIClient_stream (\<lambda>s. None) () ([] @ [?tc])) = MessageStop ''tool_use''"
    using inst [where chunks = "[]" and c = ?tc] h1 by blast
  have b: "last (OpenAIClient_stream (\<lambda>s. None) () ([] @ [?st])) = MessageStop ''end_turn''"
    using inst [where chunks = "[]" and c = ?st] h2 by blast
  have c: "last (OpenAIClient_stream (\<lambda>s. None) () ([?tc] @ [?ln])) = MessageStop ''tool_use''"
    using inst [where chunks = "[?tc]" and c = ?ln] h3 a by simp
  have d: "last (OpenAIClient_stream (\<lambda>s. None) () ([] @ [?nd])) = MessageStop ''end_turn''"
    using inst [where chunks = "[]" and c = ?nd] h4 by simp
  from a b c d show ?thesis by blast
qed

section \<open>Append, then reload\<close>


























end
